theory Spec2Isabelle
  imports Complex_Main "HOL-Library.AList"
begin

section \<open>Conventions of the embedding\<close>

text \<open>
  The extraction pipeline is JavaScript. Its values are modelled as follows.
  \<^item> The numbers of the cost ledger are doubles: every sum, product, quotient and literal
    is rounded by \<open>toDouble\<close>, a function of the runtime, and \<open>NaN\<close> is \<open>None\<close>
    (\<open>js_number\<close>). The theorems on the ledger assume of \<open>toDouble\<close> only that it is
    monotone and maps 0 to 0, as rounding to the nearest double does. Token counts are
    natural numbers, and no sum leaves the range of the doubles (there is no
    \<open>Infinity\<close>).
  \<^item> A confidence is a \<^typ>\<open>real\<close>, computed exactly; the theorems on confidences use
    their order and their sign. A division by zero in a rate is \<open>None\<close> (\<open>js_div\<close>).
  \<^item> A string is a \<^typ>\<open>string\<close>; case folding and white space are those of ASCII.
  \<^item> A plain object used as a dictionary, and a \<open>Map\<close>, is an association list in
    insertion order; assigning to a key that is present keeps its place
    (\<^const>\<open>AList.update\<close>). Field names are assumed not to be names that
    \<open>Object.prototype\<close> defines, and not to be integer-like (JavaScript would list
    such keys first). The name of a model is not restricted: the price table is looked
    up with the inherited names too.
  \<^item> \<open>new Date()\<close> is a parameter \<open>now\<close>, in milliseconds since the epoch; the ISO
    date of \<open>toISOString().split('T')[0]\<close> is the number of the UTC day.
  \<^item> An exception is the \<open>Inl\<close> of a sum type.
  \<^item> A validator is a closure: it is called with the state that its verdict may depend
    on and returns that state as it leaves it. Matching changes no state:
    \<open>matchAll\<close> works on a copy of the pattern, from the pattern's \<open>lastIndex\<close>, which
    nothing in the repository sets and which the model takes to be 0 (a pattern on
    which a validator of its own rule calls \<open>test\<close> is not modelled).
\<close>

type_synonym timestamp = nat

definition isoDate :: "timestamp \<Rightarrow> nat" where
  "isoDate now = now div 86400000"

definition js_div :: "real \<Rightarrow> real \<Rightarrow> real option" where
  "js_div a b = (if b = 0 then None else Some (a / b))"

section \<open>Strings\<close>

definition is_space :: "char \<Rightarrow> bool" where
  "is_space c = (c \<in> set [CHR '' '', CHR 0x09, CHR 0x0A, CHR 0x0B, CHR 0x0C, CHR 0x0D])"

definition is_digit :: "char \<Rightarrow> bool" where
  "is_digit c = (c \<in> set ''0123456789'')"

definition is_upper :: "char \<Rightarrow> bool" where
  "is_upper c = (c \<in> set ''ABCDEFGHIJKLMNOPQRSTUVWXYZ'')"

definition is_word :: "char \<Rightarrow> bool" where
  "is_word c = (c \<in> set ''ABCDEFGHIJKLMNOPQRSTUVWXYZabcdefghijklmnopqrstuvwxyz0123456789_'')"

definition toLowerChar :: "char \<Rightarrow> char" where
  "toLowerChar c =
     (case map_of (zip ''ABCDEFGHIJKLMNOPQRSTUVWXYZ'' ''abcdefghijklmnopqrstuvwxyz'') c of
        None \<Rightarrow> c | Some d \<Rightarrow> d)"

definition toUpperChar :: "char \<Rightarrow> char" where
  "toUpperChar c =
     (case map_of (zip ''abcdefghijklmnopqrstuvwxyz'' ''ABCDEFGHIJKLMNOPQRSTUVWXYZ'') c of
        None \<Rightarrow> c | Some d \<Rightarrow> d)"

definition toLowerCase :: "string \<Rightarrow> string" where
  "toLowerCase s = map toLowerChar s"

definition trim :: "string \<Rightarrow> string" where
  "trim s = rev (dropWhile is_space (rev (dropWhile is_space s)))"

text \<open>\<open>s.replace(/\s+/g, ' ')\<close>; the flag says that the previous character was white space.\<close>

fun collapse_ws :: "bool \<Rightarrow> string \<Rightarrow> string" where
  "collapse_ws prev [] = []"
| "collapse_ws prev (c # cs) =
     (if is_space c then (if prev then collapse_ws True cs else CHR '' '' # collapse_ws True cs)
      else c # collapse_ws False cs)"

text \<open>\<open>s.substring(a, b)\<close>: the arguments are swapped when \<open>a > b\<close> and clamped to the length.\<close>

definition substring :: "string \<Rightarrow> nat \<Rightarrow> nat \<Rightarrow> string" where
  "substring s a b = take (max a b - min a b) (drop (min a b) s)"

fun str_includes :: "string \<Rightarrow> string \<Rightarrow> bool" where
  "str_includes [] sub = (sub = [])"
| "str_includes (c # cs) sub = (take (length sub) (c # cs) = sub \<or> str_includes cs sub)"

text \<open>
  \<open>value.replace(/\w\S*/g, txt => txt.charAt(0).toUpperCase() + txt.substr(1).toLowerCase())\<close>;
  the flag says that the scan is inside a match.
\<close>

fun titleCase :: "bool \<Rightarrow> string \<Rightarrow> string" where
  "titleCase inside [] = []"
| "titleCase inside (c # cs) =
     (if inside then (if is_space c then c # titleCase False cs else toLowerChar c # titleCase True cs)
      else if is_word c then toUpperChar c # titleCase True cs
      else c # titleCase False cs)"

section \<open>The JavaScript runtime\<close>

text \<open>
  A regular expression is its source and its flags. What \<open>text.matchAll(pattern)\<close> yields
  for a global pattern (per match: \<open>match.index\<close>, \<open>match[0]\<close> and \<open>match[1]\<close>, which is
  \<open>None\<close> when it is undefined), \<open>Date.parse\<close> (\<open>None\<close> for \<open>NaN\<close>), \<open>parseFloat\<close>
  (\<open>None\<close> for \<open>NaN\<close>), \<open>toFixed(2)\<close>, \<open>new Date(v).toLocaleDateString('en-US')\<close> and
  the rounding of a real number to a double are the runtime's: they are parameters of
  the model.

  A value decoded from JSON that is truthy is a string, or something else, of which the
  model keeps the JSON text.
\<close>

record regex =
  re_source :: string
  re_flags :: string

record regex_match =
  m_index :: nat
  m_full :: string
  m_group1 :: "string option"

datatype json_value = JString string | JOther string

record js_runtime =
  regex_matchAll :: "regex \<Rightarrow> string \<Rightarrow> regex_match list"
  Date_parse :: "string \<Rightarrow> real option"
  parseFloat :: "string \<Rightarrow> real option"
  toFixed2 :: "real \<Rightarrow> string"
  toLocaleDateString :: "json_value \<Rightarrow> string"
  toDouble :: "real \<Rightarrow> real"

datatype js_error = TypeError string | Error string

fun message :: "js_error \<Rightarrow> string" where
  "message (TypeError m) = m"
| "message (Error m) = m"

text \<open>\<open>String.prototype.matchAll\<close> throws a \<open>TypeError\<close> for a pattern without the flag \<open>g\<close>.\<close>

definition matchAll :: "js_runtime \<Rightarrow> string \<Rightarrow> regex \<Rightarrow> js_error + regex_match list" where
  "matchAll rt text pattern =
     (if CHR ''g'' \<in> set (re_flags pattern) then Inr (regex_matchAll rt pattern text)
      else Inl (TypeError ''String.prototype.matchAll called with a non-global RegExp argument''))"

text \<open>The arithmetic of doubles: a literal, \<open>a + b\<close>, \<open>a * b\<close> and \<open>a / b\<close>.\<close>

definition num_lit :: "js_runtime \<Rightarrow> real \<Rightarrow> real" where
  "num_lit rt x = toDouble rt x"

definition num_add :: "js_runtime \<Rightarrow> real \<Rightarrow> real \<Rightarrow> real" where
  "num_add rt a b = toDouble rt (a + b)"

definition num_mul :: "js_runtime \<Rightarrow> real \<Rightarrow> real \<Rightarrow> real" where
  "num_mul rt a b = toDouble rt (a * b)"

definition num_div :: "js_runtime \<Rightarrow> real \<Rightarrow> real \<Rightarrow> real" where
  "num_div rt a b = toDouble rt (a / b)"

text \<open>What the theorems on the ledger assume of the rounding.\<close>

definition double_rounding :: "js_runtime \<Rightarrow> bool" where
  "double_rounding rt = (mono (toDouble rt) \<and> toDouble rt 0 = 0)"

section \<open>CostTracker\<close>

text \<open>A number that may be \<open>NaN\<close>; \<open>x + y\<close> on such numbers; and \<open>map.get(key) || 0\<close>.\<close>

type_synonym js_number = "real option"

definition nan_add :: "js_runtime \<Rightarrow> js_number \<Rightarrow> js_number \<Rightarrow> js_number" where
  "nan_add rt x y =
     (case x of None \<Rightarrow> None
      | Some a \<Rightarrow> (case y of None \<Rightarrow> None | Some b \<Rightarrow> Some (num_add rt a b)))"

definition orZero :: "js_number option \<Rightarrow> real" where
  "orZero x = (case x of None \<Rightarrow> 0 | Some None \<Rightarrow> 0 | Some (Some d) \<Rightarrow> d)"

record llm_request =
  req_timestamp :: timestamp
  req_model :: string
  req_inputTokens :: nat
  req_outputTokens :: nat
  req_cost :: js_number

record session_costs =
  totalCost :: js_number
  requests :: "llm_request list"
  startTime :: timestamp

record cost_tracker =
  costs :: "string \<rightharpoonup> session_costs"
  dailyTotals :: "nat \<rightharpoonup> js_number"
  requestCounts :: "string \<rightharpoonup> nat"

definition CostTracker_new :: cost_tracker where
  "CostTracker_new = \<lparr>costs = Map.empty, dailyTotals = Map.empty, requestCounts = Map.empty\<rparr>"

text \<open>
  The static price table: per token, (input, output). \<open>CostTracker.PRICING[model]\<close> also
  finds the properties that the table inherits from \<open>Object.prototype\<close>: for those names
  it yields an object without prices.
\<close>

definition PRICING :: "js_runtime \<Rightarrow> string \<rightharpoonup> real \<times> real" where
  "PRICING rt = map_of
     [(''gpt-4o-mini'', (num_div rt (num_lit rt 0.00015) 1000, num_div rt (num_lit rt 0.0006) 1000)),
      (''gpt-3.5-turbo'', (num_div rt (num_lit rt 0.0005) 1000, num_div rt (num_lit rt 0.0015) 1000)),
      (''ollama'', (0, 0))]"

definition inherited_keys :: "string list" where
  "inherited_keys =
     [''constructor'', ''__defineGetter__'', ''__defineSetter__'', ''hasOwnProperty'',
      ''__lookupGetter__'', ''__lookupSetter__'', ''isPrototypeOf'', ''propertyIsEnumerable'',
      ''toString'', ''valueOf'', ''__proto__'', ''toLocaleString'']"

text \<open>
  \<open>calculateCost\<close>: \<open>PRICING[model] || PRICING['ollama']\<close>, then
  \<open>inputTokens * pricing.input + outputTokens * pricing.output\<close>, which is \<open>NaN\<close> when
  the prices are undefined.
\<close>

definition calculateCost :: "js_runtime \<Rightarrow> string \<Rightarrow> nat \<Rightarrow> nat \<Rightarrow> js_number" where
  "calculateCost rt model inputTokens outputTokens =
     (let pricing = (case PRICING rt model of
                       Some p \<Rightarrow> Some p
                     | None \<Rightarrow> if model \<in> set inherited_keys then None else PRICING rt ''ollama'')
      in case pricing of
           None \<Rightarrow> None
         | Some p \<Rightarrow> Some (num_add rt (num_mul rt (real inputTokens) (fst p))
                                      (num_mul rt (real outputTokens) (snd p))))"

record track_result =
  requestCost :: js_number
  sessionTotal :: js_number
  dailyTotal :: js_number
  requestCount :: nat

definition trackRequest ::
  "js_runtime \<Rightarrow> cost_tracker \<Rightarrow> timestamp \<Rightarrow> string \<Rightarrow> string \<Rightarrow> nat \<Rightarrow> nat \<Rightarrow>
     track_result \<times> cost_tracker" where
  "trackRequest rt t now sessionId model inputTokens outputTokens =
     (let cost = calculateCost rt model inputTokens outputTokens;
          today = isoDate now;
          session0 = (case costs t sessionId of
                        None \<Rightarrow> \<lparr>totalCost = Some 0, requests = [], startTime = now\<rparr>
                      | Some s \<Rightarrow> s);
          session = session0
            \<lparr>totalCost := nan_add rt (totalCost session0) cost,
             requests := requests session0 @
               [\<lparr>req_timestamp = now, req_model = model, req_inputTokens = inputTokens,
                 req_outputTokens = outputTokens, req_cost = cost\<rparr>]\<rparr>;
          daily = nan_add rt (Some (orZero (dailyTotals t today))) cost;
          count = (case requestCounts t sessionId of None \<Rightarrow> 0 | Some c \<Rightarrow> c) + 1
      in (\<lparr>requestCost = cost, sessionTotal = totalCost session, dailyTotal = daily,
            requestCount = count\<rparr>,
          t\<lparr>costs := (costs t)(sessionId \<mapsto> session),
            dailyTotals := (dailyTotals t)(today \<mapsto> daily),
            requestCounts := (requestCounts t)(sessionId \<mapsto> count)\<rparr>))"

record cost_check =
  allowed :: bool
  reason :: "string option"
  sessionCost :: "real option"
  dailyCost :: "real option"

text \<open>
  \<open>maxDailyCost\<close> defaults to \<open>null\<close> (\<open>None\<close>); the test \<open>maxDailyCost && ...\<close> is
  also false for the number zero. The per-request branch compares the cap with itself,
  as the source does. The sum \<open>dailyTotal + maxCostPerRequest\<close> is a sum of doubles.
\<close>

definition canMakeRequest ::
  "js_runtime \<Rightarrow> cost_tracker \<Rightarrow> timestamp \<Rightarrow> string \<Rightarrow> real \<Rightarrow> real option \<Rightarrow> cost_check" where
  "canMakeRequest rt t now sessionId maxCostPerRequest maxDailyCost =
     (let session = costs t sessionId;
          today = isoDate now;
          dailyTotal = orZero (dailyTotals t today)
      in if maxCostPerRequest \<noteq> 0 \<and> maxCostPerRequest > 0 \<and> maxCostPerRequest > maxCostPerRequest
         then \<lparr>allowed = False, reason = Some ''Request would exceed per-request cost limit'',
               sessionCost = None, dailyCost = None\<rparr>
         else if (case maxDailyCost of None \<Rightarrow> False
                  | Some m \<Rightarrow> m \<noteq> 0 \<and> num_add rt dailyTotal maxCostPerRequest > m)
         then \<lparr>allowed = False, reason = Some ''Request would exceed daily cost limit'',
               sessionCost = None, dailyCost = None\<rparr>
         else \<lparr>allowed = True, reason = None,
               sessionCost = Some (orZero (map_option totalCost session)),
               dailyCost = Some dailyTotal\<rparr>)"

text \<open>\<open>reset(sessionId = null)\<close>: an empty session id is falsy and clears everything.\<close>

definition reset :: "cost_tracker \<Rightarrow> string option \<Rightarrow> cost_tracker" where
  "reset t sessionId =
     (case sessionId of
        Some s \<Rightarrow>
          if s \<noteq> [] then t\<lparr>costs := (costs t)(s := None), requestCounts := (requestCounts t)(s := None)\<rparr>
          else CostTracker_new
      | None \<Rightarrow> CostTracker_new)"

text \<open>
  The ledger operations that can follow one another: a tracked request or a reset.
  \<open>keeps_daily_total\<close> holds of the operations that cannot lower what is read as the
  total of a day: a request for a model whose name the price table does not inherit (the
  cost of the others is \<open>NaN\<close>, and a total that is \<open>NaN\<close> is read as 0), and the reset
  of one session (the reset of the whole ledger clears the daily totals too).
\<close>

datatype ledger_op =
  Track timestamp string string nat nat
  | Reset "string option"

fun ledger_step :: "js_runtime \<Rightarrow> cost_tracker \<Rightarrow> ledger_op \<Rightarrow> cost_tracker" where
  "ledger_step rt t (Track now sessionId model i o') = snd (trackRequest rt t now sessionId model i o')"
| "ledger_step rt t (Reset s) = reset t s"

fun keeps_daily_total :: "ledger_op \<Rightarrow> bool" where
  "keeps_daily_total (Track now sessionId model i o') = (model \<notin> set inherited_keys)"
| "keeps_daily_total (Reset (Some s)) = (s \<noteq> [])"
| "keeps_daily_total (Reset None) = False"

definition ledger_run :: "js_runtime \<Rightarrow> cost_tracker \<Rightarrow> ledger_op list \<Rightarrow> cost_tracker" where
  "ledger_run rt t ops = foldl (ledger_step rt) t ops"

text \<open>What \<open>canMakeRequest\<close> reads as the total of a day: \<open>dailyTotals.get(day) || 0\<close>.\<close>

definition dailyTotalOn :: "cost_tracker \<Rightarrow> nat \<Rightarrow> real" where
  "dailyTotalOn t day = orZero (dailyTotals t day)"

section \<open>RulesEngine\<close>

text \<open>
  A validator is called with the state and with the value. The state is what a verdict
  may depend on beside the value: the variables that the rules close over (such as the
  \<open>lastIndex\<close> of a pattern that a validator calls \<open>test\<close> on) and what else a closure
  can read (a clock, a random generator). The validator returns \<open>None\<close> when it throws,
  and else the truth of what it returns, together with the state as it leaves it.
  \<open>stateless\<close> is a validator that is a predicate on the value.
\<close>

type_synonym 'h validator = "'h \<Rightarrow> string \<Rightarrow> bool option \<times> 'h"

definition stateless :: "(string \<Rightarrow> bool) \<Rightarrow> 'h validator" where
  "stateless p h v = (Some (p v), h)"

record 'h rule =
  patterns :: "regex list"
  validators :: "'h validator list option"
  priority :: int

text \<open>
  A candidate. The rules stage gives it a position and no source; the fallback gives it
  a source and no position. Its value is a string, but the fallback may return another
  truthy JSON value: then \<open>cand_is_string\<close> is false and \<open>cand_value\<close> is its JSON text.
\<close>

record candidate =
  cand_value :: string
  cand_is_string :: bool
  confidence :: real
  position :: "nat option"
  cand_context :: string
  cand_source :: "string option"

type_synonym field_results = "(string \<times> candidate list) list"

text \<open>The engine, with the state of the variables that its rules close over.\<close>

record 'h rules_engine =
  rules :: "(string \<times> 'h rule) list"
  customRules :: "(string \<times> 'h rule) list"
  closures :: 'h

definition addCustomRule :: "'h rules_engine \<Rightarrow> string \<Rightarrow> 'h rule \<Rightarrow> 'h rules_engine" where
  "addCustomRule eng fieldName r = eng\<lparr>customRules := AList.update fieldName r (customRules eng)\<rparr>"

definition cleanValue :: "string \<Rightarrow> string \<Rightarrow> string option" where
  "cleanValue v fieldType =
     (if v = [] then None
      else let cleaned = trim v in
        Some (if fieldType = ''email'' then toLowerCase cleaned
              else if fieldType = ''phone'' then filter is_digit cleaned
              else if fieldType = ''amount'' then filter (\<lambda>c. c \<noteq> CHR ''$'' \<and> c \<noteq> CHR '','') cleaned
              else if fieldType = ''name'' \<or> fieldType = ''company'' then trim (collapse_ws False cleaned)
              else cleaned))"

text \<open>
  \<open>validators.every(...)\<close>: the validators are called in turn, up to the first one that
  throws or returns something falsy.
\<close>

fun everyValidator :: "'h \<Rightarrow> string \<Rightarrow> 'h validator list \<Rightarrow> bool \<times> 'h" where
  "everyValidator h v [] = (True, h)"
| "everyValidator h v (validator # rest) =
     (case validator h v of
        (verdict, h') \<Rightarrow> if verdict = Some True then everyValidator h' v rest else (False, h'))"

definition validateValue :: "'h \<Rightarrow> string \<Rightarrow> 'h validator list option \<Rightarrow> bool \<times> 'h" where
  "validateValue h v vs = (case vs of None \<Rightarrow> (True, h) | Some fs \<Rightarrow> everyValidator h v fs)"

definition calculateConfidence :: "string \<Rightarrow> regex_match \<Rightarrow> regex \<Rightarrow> 'h rule \<Rightarrow> real" where
  "calculateConfidence text m pattern r =
     (let c0 = 0.5;
          c1 = (if length (re_source pattern) > 20 then c0 + 0.1 else c0);
          ctx = toLowerCase (substring text (m_index m - 20) (m_index m + length (m_full m) + 20));
          c2 = (if str_includes ctx ''email'' then c1 + 0.2 else c1);
          c3 = (if str_includes ctx ''phone'' then c2 + 0.2 else c2);
          c4 = (if str_includes ctx ''amount'' then c3 + 0.2 else c3);
          c5 = c4 + (10 - real_of_int (priority r)) * 0.05
      in min c5 1.0)"

definition extractContext :: "string \<Rightarrow> nat \<Rightarrow> nat \<Rightarrow> string" where
  "extractContext text pos radius =
     (let start = pos - radius; end' = min (length text) (pos + radius)
      in trim (collapse_ws False (substring text start end')))"

text \<open>
  One turn of the inner loop of \<open>extractField\<close>: the candidate a match adds, if any. The
  validators are called only for a value that is not empty after cleaning.
\<close>

definition matchCandidate ::
  "'h \<Rightarrow> string \<Rightarrow> 'h rule \<Rightarrow> string \<Rightarrow> regex \<Rightarrow> regex_match \<Rightarrow> candidate option \<times> 'h" where
  "matchCandidate h text r fieldName pattern m =
     (let v = (case m_group1 m of Some g \<Rightarrow> if g \<noteq> [] then g else m_full m | None \<Rightarrow> m_full m)
      in case cleanValue v fieldName of
           None \<Rightarrow> (None, h)
         | Some cleanVal \<Rightarrow>
             if cleanVal = [] then (None, h)
             else (case validateValue h cleanVal (validators r) of
                     (valid, h') \<Rightarrow>
                       (if valid
                        then Some \<lparr>cand_value = cleanVal, cand_is_string = True,
                                   confidence = calculateConfidence text m pattern r,
                                   position = Some (m_index m),
                                   cand_context = extractContext text (m_index m) 50,
                                   cand_source = None\<rparr>
                        else None, h')))"

text \<open>The inner loop, over the matches of one pattern.\<close>

fun addMatches ::
  "'h \<Rightarrow> string \<Rightarrow> 'h rule \<Rightarrow> string \<Rightarrow> regex \<Rightarrow> regex_match list \<Rightarrow> candidate list \<Rightarrow>
     candidate list \<times> 'h" where
  "addMatches h text r fieldName pattern [] acc = (acc, h)"
| "addMatches h text r fieldName pattern (m # ms) acc =
     (case matchCandidate h text r fieldName pattern m of
        (found, h') \<Rightarrow>
          addMatches h' text r fieldName pattern ms
            (case found of None \<Rightarrow> acc | Some c \<Rightarrow> acc @ [c]))"

text \<open>The outer loop, over the patterns; the set of matches holds fresh objects, so it is a list.\<close>

fun collectMatches ::
  "js_runtime \<Rightarrow> 'h \<Rightarrow> string \<Rightarrow> 'h rule \<Rightarrow> string \<Rightarrow> regex list \<Rightarrow> candidate list \<Rightarrow>
     (js_error + candidate list) \<times> 'h" where
  "collectMatches rt h text r fieldName [] acc = (Inr acc, h)"
| "collectMatches rt h text r fieldName (pattern # ps) acc =
     (case matchAll rt text pattern of
        Inl e \<Rightarrow> (Inl e, h)
      | Inr patternMatches \<Rightarrow>
          (case addMatches h text r fieldName pattern patternMatches acc of
             (acc', h') \<Rightarrow> collectMatches rt h' text r fieldName ps acc'))"

text \<open>
  \<open>Array.prototype.sort\<close> is stable; with the comparator \<open>b.confidence - a.confidence\<close> it
  is the stable insertion sort on the negated confidence.
\<close>

definition byConfidence :: "candidate list \<Rightarrow> candidate list" where
  "byConfidence cs = sort_key (\<lambda>c. - confidence c) cs"

definition extractField ::
  "js_runtime \<Rightarrow> 'h \<Rightarrow> string \<Rightarrow> 'h rule \<Rightarrow> string \<Rightarrow> (js_error + candidate list) \<times> 'h" where
  "extractField rt h text r fieldName =
     (case collectMatches rt h text r fieldName (patterns r) [] of
        (Inl e, h') \<Rightarrow> (Inl e, h')
      | (Inr found, h') \<Rightarrow> (Inr (byConfidence found), h'))"

text \<open>One turn of the loop of \<open>removeDuplicates\<close>, on the map \<open>unique\<close>.\<close>

definition keepBest :: "(string \<times> candidate) list \<Rightarrow> candidate \<Rightarrow> (string \<times> candidate) list" where
  "keepBest unique m =
     (let key = toLowerCase (cand_value m) in
      case map_of unique key of
        None \<Rightarrow> AList.update key m unique
      | Some old \<Rightarrow> if confidence old < confidence m then AList.update key m unique else unique)"

definition removeDuplicates :: "candidate list \<Rightarrow> candidate list" where
  "removeDuplicates found = byConfidence (map snd (foldl keepBest [] found))"

text \<open>One turn of the loop of \<open>rankAndCleanResults\<close>.\<close>

definition rankField :: "field_results \<Rightarrow> string \<times> candidate list \<Rightarrow> field_results" where
  "rankField ranked entry =
     (case entry of (fieldName, found) \<Rightarrow>
        if found \<noteq> [] then AList.update fieldName (take 5 (removeDuplicates found)) ranked
        else ranked)"

definition rankAndCleanResults :: "field_results \<Rightarrow> field_results" where
  "rankAndCleanResults results = foldl rankField [] results"

fun applyRules ::
  "js_runtime \<Rightarrow> 'h \<Rightarrow> string \<Rightarrow> (string \<times> 'h rule) list \<Rightarrow> field_results \<Rightarrow>
     (js_error + field_results) \<times> 'h" where
  "applyRules rt h text [] results = (Inr results, h)"
| "applyRules rt h text ((fieldName, r) # rs) results =
     (case extractField rt h text r fieldName of
        (Inl e, h') \<Rightarrow> (Inl e, h')
      | (Inr found, h') \<Rightarrow> applyRules rt h' text rs (AList.update fieldName found results))"

text \<open>
  \<open>extractFields\<close> returns its result and the engine, whose rules are as they were and
  whose closures are as the validators left them (also when a pattern throws).
\<close>

definition extractFields ::
  "js_runtime \<Rightarrow> 'h rules_engine \<Rightarrow> string \<Rightarrow> string list option \<Rightarrow>
     (js_error + field_results) \<times> 'h rules_engine" where
  "extractFields rt eng text specificFields =
     (let rulesToApply = (case specificFields of
                            Some sf \<Rightarrow> filter (\<lambda>(key, r). key \<in> set sf) (rules eng)
                          | None \<Rightarrow> rules eng)
      in case applyRules rt (closures eng) text rulesToApply [] of
           (Inl e, h) \<Rightarrow> (Inl e, eng\<lparr>closures := h\<rparr>)
         | (Inr builtin, h) \<Rightarrow>
             (case applyRules rt h text
                     (filter (\<lambda>(fieldName, r).
                        (case specificFields of None \<Rightarrow> True | Some sf \<Rightarrow> fieldName \<in> set sf))
                        (customRules eng))
                     builtin of
                (Inl e, h') \<Rightarrow> (Inl e, eng\<lparr>closures := h'\<rparr>)
              | (Inr results, h') \<Rightarrow> (Inr (rankAndCleanResults results), eng\<lparr>closures := h'\<rparr>)))"

record extraction_stats =
  stats_totalFields :: nat
  stats_extractedFields :: nat
  stats_totalMatches :: nat
  stats_averageConfidence :: real
  stats_extractionRate :: "real option"

definition getExtractionStats :: "'h rules_engine \<Rightarrow> field_results \<Rightarrow> extraction_stats" where
  "getExtractionStats eng results =
     (let total = length (rules eng) + length (customRules eng);
          nonempty = filter (\<lambda>found. found \<noteq> []) (map snd results);
          matchCount = sum_list (map length nonempty);
          confidenceSum = sum_list (map confidence (concat nonempty))
      in \<lparr>stats_totalFields = total,
          stats_extractedFields = length nonempty,
          stats_totalMatches = matchCount,
          stats_averageConfidence = (if matchCount > 0 then confidenceSum / real matchCount else 0),
          stats_extractionRate = js_div (real (length nonempty)) (real total)\<rparr>)"

text \<open>
  The built-in table, whose validators are predicates on the value. \<open>bsl\<close> is the
  backslash of a regular expression's source; the second date validator compares with
  \<open>new Date('1900-01-01')\<close>.
\<close>

definition bsl :: string where
  "bsl = [CHR 0x5C]"

definition EXTRACTION_RULES :: "js_runtime \<Rightarrow> (string \<times> 'h rule) list" where
  "EXTRACTION_RULES rt =
     [(''email'',
       \<lparr>patterns =
         [\<lparr>re_source = ''([a-zA-Z0-9._%+-]+@[a-zA-Z0-9.-]+'' @ bsl @ ''.[a-zA-Z]{2,})'', re_flags = ''g''\<rparr>,
          \<lparr>re_source = '''' @ bsl @ ''b[A-Z0-9._%+-]+@[A-Z0-9.-]+'' @ bsl @ ''.[A-Z]{2,}'' @ bsl @ ''b'', re_flags = ''gi''\<rparr>],
        validators = Some
         [stateless (\<lambda>email. str_includes email ''@'' \<and> str_includes email ''.''),
          stateless (\<lambda>email. length email > 5 \<and> length email < 255)],
        priority = 1\<rparr>),
      (''phone'',
       \<lparr>patterns =
         [\<lparr>re_source = ''('' @ bsl @ ''+?1[-.'' @ bsl @ ''s]?)?'' @ bsl @ ''(?([0-9]{3})'' @ bsl @ '')?[-.'' @ bsl @ ''s]?([0-9]{3})[-.'' @ bsl @ ''s]?([0-9]{4})'', re_flags = ''g''\<rparr>,
          \<lparr>re_source = ''('' @ bsl @ ''+?[1-9]'' @ bsl @ ''d{0,3}[-.'' @ bsl @ ''s]?)?('' @ bsl @ ''d{1,4}[-.'' @ bsl @ ''s]?)?'' @ bsl @ ''d{4,}'', re_flags = ''g''\<rparr>],
        validators = Some
         [stateless (\<lambda>phone. length (filter is_digit phone) \<ge> 10),
          stateless (\<lambda>phone. length (filter is_digit phone) \<le> 15)],
        priority = 2\<rparr>),
      (''name'',
       \<lparr>patterns =
         [\<lparr>re_source = ''(?:name[:'' @ bsl @ ''s]+)([A-Z][a-z]+ [A-Z][a-z]+)'', re_flags = ''gi''\<rparr>,
          \<lparr>re_source = ''(?:from[:'' @ bsl @ ''s]+)([A-Z][a-z]+ [A-Z][a-z]+)'', re_flags = ''gi''\<rparr>,
          \<lparr>re_source = ''^([A-Z][a-z]+ [A-Z][a-z]+)'', re_flags = ''gm''\<rparr>],
        validators = Some
         [stateless (\<lambda>name. length (filter (\<lambda>c. c = CHR '' '') name) + 1 \<ge> 2),
          stateless (\<lambda>name. length name > 3 \<and> length name < 100)],
        priority = 3\<rparr>),
      (''date'',
       \<lparr>patterns =
         [\<lparr>re_source = ''('' @ bsl @ ''d{1,2}'' @ bsl @ ''/'' @ bsl @ ''d{1,2}'' @ bsl @ ''/'' @ bsl @ ''d{4})'', re_flags = ''g''\<rparr>,
          \<lparr>re_source = ''('' @ bsl @ ''d{4}-'' @ bsl @ ''d{2}-'' @ bsl @ ''d{2})'', re_flags = ''g''\<rparr>,
          \<lparr>re_source = ''('' @ bsl @ ''w+ '' @ bsl @ ''d{1,2}, '' @ bsl @ ''d{4})'', re_flags = ''g''\<rparr>,
          \<lparr>re_source = ''('' @ bsl @ ''d{1,2} '' @ bsl @ ''w+ '' @ bsl @ ''d{4})'', re_flags = ''g''\<rparr>],
        validators = Some
         [stateless (\<lambda>date. Date_parse rt date \<noteq> None),
          stateless (\<lambda>date. case Date_parse rt date of None \<Rightarrow> False | Some ms \<Rightarrow> ms > - 2208988800000)],
        priority = 4\<rparr>),
      (''amount'',
       \<lparr>patterns =
         [\<lparr>re_source = '''' @ bsl @ ''$([0-9,]+'' @ bsl @ ''.?'' @ bsl @ ''d{0,2})'', re_flags = ''g''\<rparr>,
          \<lparr>re_source = ''([0-9,]+'' @ bsl @ ''.?'' @ bsl @ ''d{0,2})'' @ bsl @ ''s*(?:dollars?|USD)'', re_flags = ''gi''\<rparr>,
          \<lparr>re_source = ''(?:amount[:'' @ bsl @ ''s]+)'' @ bsl @ ''$?([0-9,]+'' @ bsl @ ''.?'' @ bsl @ ''d{0,2})'', re_flags = ''gi''\<rparr>],
        validators = Some
         [stateless (\<lambda>amount. case parseFloat rt (filter (\<lambda>c. c \<noteq> CHR '','' \<and> c \<noteq> CHR ''$'') amount) of
                 None \<Rightarrow> False | Some x \<Rightarrow> x > 0),
          stateless (\<lambda>amount. case parseFloat rt (filter (\<lambda>c. c \<noteq> CHR '','' \<and> c \<noteq> CHR ''$'') amount) of
                 None \<Rightarrow> False | Some x \<Rightarrow> x < 1000000)],
        priority = 5\<rparr>),
      (''address'',
       \<lparr>patterns =
         [\<lparr>re_source = ''('' @ bsl @ ''d+'' @ bsl @ ''s+[A-Z][a-z'' @ bsl @ ''s]+(?:Street|St|Avenue|Ave|Road|Rd|Lane|Ln|Drive|Dr|Boulevard|Blvd))'', re_flags = ''gi''\<rparr>,
          \<lparr>re_source = ''('' @ bsl @ ''d+'' @ bsl @ ''s+[A-Z0-9][A-Za-z0-9'' @ bsl @ ''s,.-]+'' @ bsl @ ''s+[A-Z]{2}'' @ bsl @ ''s+'' @ bsl @ ''d{5})'', re_flags = ''gi''\<rparr>],
        validators = Some
         [stateless (\<lambda>address. length address > 10),
          stateless (\<lambda>address. list_ex is_digit address)],
        priority = 6\<rparr>),
      (''invoiceNumber'',
       \<lparr>patterns =
         [\<lparr>re_source = ''(?:invoice[#'' @ bsl @ ''s:]+)([A-Z0-9-]+)'', re_flags = ''gi''\<rparr>,
          \<lparr>re_source = ''(?:inv[#'' @ bsl @ ''s:]+)([A-Z0-9-]+)'', re_flags = ''gi''\<rparr>,
          \<lparr>re_source = ''#([A-Z0-9-]{6,})'', re_flags = ''gi''\<rparr>],
        validators = Some
         [stateless (\<lambda>num. length num \<ge> 3),
          stateless (\<lambda>num. list_ex (\<lambda>c. is_upper c \<or> is_digit c) num)],
        priority = 7\<rparr>),
      (''company'',
       \<lparr>patterns =
         [\<lparr>re_source = ''(?:company[:'' @ bsl @ ''s]+)([A-Z][A-Za-z'' @ bsl @ ''s&.,]+(?:Inc|LLC|Corp|Ltd))'', re_flags = ''gi''\<rparr>,
          \<lparr>re_source = ''([A-Z][A-Za-z'' @ bsl @ ''s&.,]+(?:Inc|LLC|Corp|Ltd))'', re_flags = ''g''\<rparr>,
          \<lparr>re_source = ''(?:organization[:'' @ bsl @ ''s]+)([A-Z][A-Za-z'' @ bsl @ ''s&.,]+)'', re_flags = ''gi''\<rparr>],
        validators = Some
         [stateless (\<lambda>company. length company > 2),
          stateless (\<lambda>company. length company < 100)],
        priority = 8\<rparr>)]"

definition RulesEngine_new :: "js_runtime \<Rightarrow> 'h \<Rightarrow> 'h rules_engine" where
  "RulesEngine_new rt h = \<lparr>rules = EXTRACTION_RULES rt, customRules = [], closures = h\<rparr>"

section \<open>LLMProvider\<close>

text \<open>
  The transport to the model (an HTTP call) is a parameter: for a text and the missing
  fields it fails, with the \<open>code\<close>, the response status and the message of the error, or
  it replies. (A response from which the provider cannot read what it passes to
  \<open>trackRequest\<close> throws at that point, inside the same \<open>try\<close> and before anything
  is charged: it is a failure.) Of a reply the model keeps
  \<^item> the token counts that the provider reports to \<open>trackRequest\<close>;
  \<^item> for OpenAI, the message of the \<open>TypeError\<close> that reading
    \<open>response.data.choices[0].message.content\<close> throws when the reply has no such
    content (\<open>None\<close> when it can be read): it is thrown after the request has been
    charged; Ollama passes \<open>response.data.response\<close> on as it is;
  \<^item> the object that the text of the reply decodes to (\<open>None\<close> when trimming or
    \<open>JSON.parse\<close> throws), as a map from field names to the truthy values (a field
    that is absent, \<open>null\<close> or otherwise falsy is \<open>None\<close>).
\<close>

record config =
  cfg_llmProvider :: string
  cfg_llmModel :: string
  cfg_maxLlmCostPerRequest :: real
  cfg_openaiApiKey :: "string option"

record llm_provider =
  costTracker :: cost_tracker
  provider :: string
  llm_model :: string
  maxCostPerRequest :: real

definition LLMProvider_new :: "config \<Rightarrow> llm_provider" where
  "LLMProvider_new cfg =
     \<lparr>costTracker = CostTracker_new, provider = cfg_llmProvider cfg,
      llm_model = cfg_llmModel cfg, maxCostPerRequest = cfg_maxLlmCostPerRequest cfg\<rparr>"

record http_failure =
  err_code :: "string option"
  err_status :: "nat option"
  err_message :: string

record backend_reply =
  usage_input :: nat
  usage_output :: nat
  content_error :: "string option"
  decoded :: "(string \<rightharpoonup> json_value) option"

type_synonym backend = "string \<Rightarrow> string list \<Rightarrow> http_failure + backend_reply"

datatype llm_failure =
  CostLimitExceeded string
  | UnsupportedProvider string
  | BackendFailure string

fun llm_message :: "llm_failure \<Rightarrow> string" where
  "llm_message (CostLimitExceeded why) = ''Cost limit exceeded: '' @ why"
| "llm_message (UnsupportedProvider name) = ''Unsupported LLM provider: '' @ name"
| "llm_message (BackendFailure m) = m"

text \<open>The candidate that \<open>parseExtractionResponse\<close> makes of a value.\<close>

definition llmCandidate :: "json_value \<Rightarrow> candidate" where
  "llmCandidate jv =
     \<lparr>cand_value = (case jv of JString s \<Rightarrow> s | JOther j \<Rightarrow> j),
      cand_is_string = (case jv of JString s \<Rightarrow> True | JOther j \<Rightarrow> False),
      confidence = 0.7, position = None,
      cand_context = ''Extracted by LLM fallback'', cand_source = Some ''llm''\<rparr>"

definition parseExtractionResponse ::
  "(string \<rightharpoonup> json_value) option \<Rightarrow> string list \<Rightarrow> field_results" where
  "parseExtractionResponse extracted missingFields =
     (case extracted of
        None \<Rightarrow> []
      | Some obj \<Rightarrow>
          foldl (\<lambda>result field.
             case obj field of
               None \<Rightarrow> result
             | Some jv \<Rightarrow>
                 if jv \<noteq> JString [] then AList.update field [llmCandidate jv] result
                 else result)
            [] missingFields)"

definition callOllama ::
  "llm_provider \<Rightarrow> js_runtime \<Rightarrow> backend \<Rightarrow> timestamp \<Rightarrow> string \<Rightarrow> string list \<Rightarrow> string \<Rightarrow>
     (llm_failure + field_results) \<times> llm_provider" where
  "callOllama p rt transport now text missingFields sessionId =
     (case transport text missingFields of
        Inr reply \<Rightarrow>
          (Inr (parseExtractionResponse (decoded reply) missingFields),
           p\<lparr>costTracker := snd (trackRequest rt (costTracker p) now sessionId (llm_model p)
                                   (usage_input reply) (usage_output reply))\<rparr>)
      | Inl failure \<Rightarrow>
          (Inl (BackendFailure
             (if err_code failure = Some ''ECONNREFUSED''
              then ''Ollama server is not running. Please start Ollama and try again.''
              else ''Ollama API error: '' @ err_message failure)), p))"

definition callOpenAI ::
  "llm_provider \<Rightarrow> js_runtime \<Rightarrow> config \<Rightarrow> backend \<Rightarrow> timestamp \<Rightarrow> string \<Rightarrow> string list \<Rightarrow> string \<Rightarrow>
     (llm_failure + field_results) \<times> llm_provider" where
  "callOpenAI p rt cfg transport now text missingFields sessionId =
     (if cfg_openaiApiKey cfg = None \<or> cfg_openaiApiKey cfg = Some []
      then (Inl (BackendFailure ''OpenAI API key not configured''), p)
      else
        (case transport text missingFields of
           Inr reply \<Rightarrow>
             (case content_error reply of
                None \<Rightarrow> Inr (parseExtractionResponse (decoded reply) missingFields)
              | Some m \<Rightarrow> Inl (BackendFailure (''OpenAI API error: '' @ m)),
              p\<lparr>costTracker := snd (trackRequest rt (costTracker p) now sessionId
                                      (if str_includes (llm_model p) ''gpt'' then llm_model p
                                       else ''gpt-4o-mini'')
                                      (usage_input reply) (usage_output reply))\<rparr>)
         | Inl failure \<Rightarrow>
             (Inl (BackendFailure
                (if err_status failure = Some 401 then ''Invalid OpenAI API key''
                 else if err_status failure = Some 429 then ''OpenAI API rate limit exceeded''
                 else ''OpenAI API error: '' @ err_message failure)), p)))"

text \<open>
  \<open>LLMProvider.extractFields\<close>: the pre-flight check is called without a daily cap; the
  \<open>catch\<close> of the source logs and throws the error it caught.
\<close>

definition LLM_extractFields ::
  "llm_provider \<Rightarrow> js_runtime \<Rightarrow> config \<Rightarrow> backend \<Rightarrow> timestamp \<Rightarrow> string \<Rightarrow> string list \<Rightarrow> string \<Rightarrow>
     (llm_failure + field_results) \<times> llm_provider" where
  "LLM_extractFields p rt cfg transport now text missingFields sessionId =
     (let costCheck = canMakeRequest rt (costTracker p) now sessionId (maxCostPerRequest p) None
      in if \<not> allowed costCheck
         then (Inl (CostLimitExceeded
                 (case reason costCheck of Some why \<Rightarrow> why | None \<Rightarrow> ''undefined'')), p)
         else if provider p = ''ollama'' then callOllama p rt transport now text missingFields sessionId
         else if provider p = ''openai'' then callOpenAI p rt cfg transport now text missingFields sessionId
         else (Inl (UnsupportedProvider (provider p)), p))"

section \<open>FieldExtractor\<close>

record document =
  doc_text :: string
  doc_type :: string
  doc_filename :: string

record options =
  opt_sessionId :: string
  enableLLMFallback :: bool
  confidenceThreshold :: real
  maxLLMCost :: "real option"
  opt_specificFields :: "string list option"

definition default_options :: options where
  "default_options =
     \<lparr>opt_sessionId = ''default'', enableLLMFallback = True, confidenceThreshold = 0.6,
      maxLLMCost = None, opt_specificFields = None\<rparr>"

record 'h field_extractor =
  rulesEngine :: "'h rules_engine"
  llmProvider :: llm_provider

definition FieldExtractor_new :: "js_runtime \<Rightarrow> config \<Rightarrow> 'h \<Rightarrow> 'h field_extractor" where
  "FieldExtractor_new rt cfg h = \<lparr>rulesEngine = RulesEngine_new rt h, llmProvider = LLMProvider_new cfg\<rparr>"

definition identifyMissingFields ::
  "'h field_extractor \<Rightarrow> field_results \<Rightarrow> real \<Rightarrow> string list option \<Rightarrow> string list" where
  "identifyMissingFields fx rulesResults threshold specificFields =
     (let availableFields = (case specificFields of
                               Some sf \<Rightarrow> sf
                             | None \<Rightarrow> map fst (rules (rulesEngine fx)))
      in filter (\<lambda>fieldName.
           case map_of rulesResults fieldName of
             None \<Rightarrow> True
           | Some [] \<Rightarrow> True
           | Some (bestMatch # others) \<Rightarrow> confidence bestMatch < threshold)
         availableFields)"

text \<open>One turn of the loop of \<open>mergeResults\<close>.\<close>

definition mergeField :: "field_results \<Rightarrow> field_results \<Rightarrow> string \<Rightarrow> field_results" where
  "mergeField llmResults merged fieldName =
     (case map_of llmResults fieldName of
        None \<Rightarrow> merged
      | Some llmMatches \<Rightarrow>
          if llmMatches \<noteq> [] then
            let existingMatches = (case map_of merged fieldName of None \<Rightarrow> [] | Some e \<Rightarrow> e);
                combined = byConfidence (existingMatches @ llmMatches)
            in AList.update fieldName (if length combined > 3 then take 3 combined else combined) merged
          else merged)"

definition mergeResults :: "field_results \<Rightarrow> field_results \<Rightarrow> string list \<Rightarrow> field_results" where
  "mergeResults rulesResults llmResults missingFields =
     foldl (mergeField llmResults) rulesResults missingFields"

text \<open>
  \<open>postProcessFieldValue\<close>. A value that is not a string has no \<open>toLowerCase\<close>,
  \<open>replace\<close> or \<open>trim\<close>: the call throws a \<open>TypeError\<close>, except for a date, which
  \<open>new Date(value)\<close> takes as it is.
\<close>

definition postProcessFieldValue :: "js_runtime \<Rightarrow> string \<Rightarrow> json_value \<Rightarrow> js_error + string" where
  "postProcessFieldValue rt fieldName jv =
     (case jv of
        JString v \<Rightarrow>
          Inr (if v = [] then v
               else if fieldName = ''email'' then trim (toLowerCase v)
               else if fieldName = ''phone'' then
                 (let digits = filter is_digit v
                  in if length digits = 10
                     then ''('' @ take 3 digits @ '') '' @ take 3 (drop 3 digits) @ ''-'' @ drop 6 digits
                     else v)
               else if fieldName = ''amount'' then
                 (case parseFloat rt (filter (\<lambda>c. c \<noteq> CHR '','' \<and> c \<noteq> CHR ''$'') v) of
                    None \<Rightarrow> v
                  | Some num \<Rightarrow> ''$'' @ toFixed2 rt num)
               else if fieldName = ''date'' then toLocaleDateString rt (JString v)
               else if fieldName = ''name'' \<or> fieldName = ''company'' then titleCase False v
               else trim v)
      | JOther j \<Rightarrow>
          if fieldName = ''email'' then Inl (TypeError ''value.toLowerCase is not a function'')
          else if fieldName = ''phone'' \<or> fieldName = ''amount'' \<or> fieldName = ''name''
                  \<or> fieldName = ''company''
          then Inl (TypeError ''value.replace is not a function'')
          else if fieldName = ''date'' then Inr (toLocaleDateString rt (JOther j))
          else Inl (TypeError ''value.trim is not a function''))"

definition jsValue :: "candidate \<Rightarrow> json_value" where
  "jsValue m = (if cand_is_string m then JString (cand_value m) else JOther (cand_value m))"

text \<open>The \<open>map\<close> over the matches of one field, up to the first value that throws.\<close>

fun postProcessMatches :: "js_runtime \<Rightarrow> string \<Rightarrow> candidate list \<Rightarrow> js_error + candidate list" where
  "postProcessMatches rt fieldName [] = Inr []"
| "postProcessMatches rt fieldName (m # ms) =
     (case postProcessFieldValue rt fieldName (jsValue m) of
        Inl e \<Rightarrow> Inl e
      | Inr v \<Rightarrow>
          (case postProcessMatches rt fieldName ms of
             Inl e \<Rightarrow> Inl e
           | Inr rest \<Rightarrow>
               Inr (m\<lparr>confidence := min (max (confidence m) 0) 1,
                        cand_value := v, cand_is_string := True\<rparr> # rest)))"

text \<open>The loop of \<open>postProcess\<close>, over the fields.\<close>

fun postProcessFields :: "js_runtime \<Rightarrow> field_results \<Rightarrow> field_results \<Rightarrow> js_error + field_results" where
  "postProcessFields rt [] processed = Inr processed"
| "postProcessFields rt ((fieldName, found) # rest) processed =
     (if found = [] then postProcessFields rt rest processed
      else (case postProcessMatches rt fieldName found of
              Inl e \<Rightarrow> Inl e
            | Inr ms \<Rightarrow> postProcessFields rt rest (AList.update fieldName ms processed)))"

definition postProcess :: "js_runtime \<Rightarrow> field_results \<Rightarrow> js_error + field_results" where
  "postProcess rt flds = postProcessFields rt flds []"

definition calculateAverageConfidence :: "field_results \<Rightarrow> real" where
  "calculateAverageConfidence flds =
     (let best = map (\<lambda>found. confidence (hd found)) (filter (\<lambda>found. found \<noteq> []) (map snd flds))
      in if length best > 0 then sum_list best / real (length best) else 0)"

datatype severity_level = high | medium | low

fun severityOrder :: "severity_level \<Rightarrow> int" where
  "severityOrder high = 3"
| "severityOrder medium = 2"
| "severityOrder low = 1"

record recommendation =
  rec_field :: string
  severity :: severity_level
  rec_message :: string
  extractedValue :: "string option"
  alternatives :: "string list option"

text \<open>The recommendation of one field, if it gets one: one turn of the loop.\<close>

definition fieldRecommendation :: "string \<Rightarrow> candidate list \<Rightarrow> recommendation option" where
  "fieldRecommendation fieldName found =
     (case found of
        [] \<Rightarrow> Some \<lparr>rec_field = fieldName, severity = high,
                    rec_message = ''Field not found - manual entry required'',
                    extractedValue = None, alternatives = None\<rparr>
      | bestMatch # others \<Rightarrow>
          if confidence bestMatch < 0.5
          then Some \<lparr>rec_field = fieldName, severity = medium,
                      rec_message = ''Low confidence extraction - please verify'',
                      extractedValue = Some (cand_value bestMatch), alternatives = None\<rparr>
          else if length found > 1 \<and> confidence (found ! 1) > 0.6
          then Some \<lparr>rec_field = fieldName, severity = low,
                      rec_message = ''Multiple similar matches found - please confirm'',
                      extractedValue = None,
                      alternatives = Some (map cand_value (take 3 found))\<rparr>
          else None)"

definition getReviewRecommendations :: "field_results \<Rightarrow> recommendation list" where
  "getReviewRecommendations flds =
     sort_key (\<lambda>r. - severityOrder (severity r))
       (List.map_filter (\<lambda>(fieldName, found). fieldRecommendation fieldName found) flds)"

record metadata =
  extractionMethod :: string
  rulesStats :: extraction_stats
  md_timestamp :: timestamp
  llmFallbackUsed :: bool
  md_totalFields :: nat
  llmFields :: "string list option"
  llmFieldsCount :: "nat option"
  llmError :: "string option"
  finalFieldsCount :: "nat option"

record summary =
  totalFieldsRequested :: nat
  fieldsExtracted :: nat
  highConfidenceFields :: nat
  extractionRate :: "real option"
  averageConfidence :: real
  sum_extractionMethod :: string
  sum_llmFallbackUsed :: bool
  fieldsFound :: "string list"
  recommendedReview :: "recommendation list"

record extraction_result =
  res_sessionId :: string
  documentType :: string
  res_filename :: string
  extractedFields :: field_results
  res_metadata :: metadata
  res_summary :: "summary option"

definition generateExtractionSummary :: "extraction_result \<Rightarrow> summary" where
  "generateExtractionSummary extractionResult =
     (let flds = extractedFields extractionResult;
          md = res_metadata extractionResult;
          fieldsWithValues = filter (\<lambda>field.
             case map_of flds field of None \<Rightarrow> False | Some found \<Rightarrow> length found > 0)
             (map fst flds);
          highConfidence = filter (\<lambda>field.
             case map_of flds field of
               Some (bestMatch # others) \<Rightarrow> confidence bestMatch \<ge> 0.8
             | _ \<Rightarrow> False) fieldsWithValues
      in \<lparr>totalFieldsRequested = stats_totalFields (rulesStats md),
          fieldsExtracted = length fieldsWithValues,
          highConfidenceFields = length highConfidence,
          extractionRate = js_div (real (length fieldsWithValues))
                                  (real (stats_totalFields (rulesStats md))),
          averageConfidence = calculateAverageConfidence flds,
          sum_extractionMethod = extractionMethod md,
          sum_llmFallbackUsed = llmFallbackUsed md,
          fieldsFound = fieldsWithValues,
          recommendedReview = getReviewRecommendations flds\<rparr>)"

text \<open>
  Phase 3 of \<open>extract\<close>: the fallback with its \<open>try\<close> and \<open>catch\<close>. It returns the
  extracted fields and the metadata as they stand before the post-processing, and the
  provider (whose ledger a successful call has charged).
\<close>

definition fallbackPhase ::
  "'h field_extractor \<Rightarrow> js_runtime \<Rightarrow> config \<Rightarrow> backend \<Rightarrow> timestamp \<Rightarrow> document \<Rightarrow> options \<Rightarrow>
     field_results \<Rightarrow> metadata \<Rightarrow> string list \<Rightarrow> field_results \<times> metadata \<times> llm_provider" where
  "fallbackPhase fx rt cfg transport now doc opts rulesResults md missingFields =
     (if enableLLMFallback opts \<and> length missingFields > 0 then
        (case LLM_extractFields (llmProvider fx) rt cfg transport now (doc_text doc) missingFields
                (opt_sessionId opts) of
           (Inr llmResults, p) \<Rightarrow>
             (mergeResults rulesResults llmResults missingFields,
              md\<lparr>extractionMethod := ''rules+llm'', llmFallbackUsed := True,
                 llmFields := Some missingFields, llmFieldsCount := Some (length llmResults)\<rparr>,
              p)
         | (Inl llmErr, p) \<Rightarrow>
             (rulesResults, md\<lparr>llmError := Some (llm_message llmErr)\<rparr>, p))
      else (rulesResults, md, llmProvider fx))"

text \<open>The metadata that \<open>extract\<close> builds after the rules stage.\<close>

definition rulesMetadata :: "'h field_extractor \<Rightarrow> timestamp \<Rightarrow> field_results \<Rightarrow> metadata" where
  "rulesMetadata fx now rulesResults =
     \<lparr>extractionMethod = ''rules'',
      rulesStats = getExtractionStats (rulesEngine fx) rulesResults,
      md_timestamp = now, llmFallbackUsed = False,
      md_totalFields = length rulesResults,
      llmFields = None, llmFieldsCount = None, llmError = None,
      finalFieldsCount = None\<rparr>"

text \<open>
  \<open>extract\<close>. The outer \<open>catch\<close> wraps whatever is thrown: by a pattern in the rules
  stage, or by the post-processing of a value that is not a string. What a call may
  change, also when it throws, are the closures of the rules and the ledger of the
  provider.
\<close>

definition FieldExtractor_extract ::
  "'h field_extractor \<Rightarrow> js_runtime \<Rightarrow> config \<Rightarrow> backend \<Rightarrow> timestamp \<Rightarrow> document \<Rightarrow> options \<Rightarrow>
     (js_error + extraction_result) \<times> 'h field_extractor" where
  "FieldExtractor_extract fx rt cfg transport now doc opts =
     (case extractFields rt (rulesEngine fx) (doc_text doc) (opt_specificFields opts) of
        (Inl e, eng) \<Rightarrow>
          (Inl (Error (''Field extraction failed: '' @ message e)), fx\<lparr>rulesEngine := eng\<rparr>)
      | (Inr rulesResults, eng) \<Rightarrow>
          (let missingFields = identifyMissingFields fx rulesResults (confidenceThreshold opts)
                                 (opt_specificFields opts);
               (merged, md, p) = fallbackPhase fx rt cfg transport now doc opts rulesResults
                                   (rulesMetadata fx now rulesResults) missingFields;
               fx' = fx\<lparr>rulesEngine := eng, llmProvider := p\<rparr>
           in case postProcess rt merged of
                Inl e \<Rightarrow> (Inl (Error (''Field extraction failed: '' @ message e)), fx')
              | Inr processed \<Rightarrow>
                  (let extractionResult =
                         \<lparr>res_sessionId = opt_sessionId opts, documentType = doc_type doc,
                          res_filename = doc_filename doc, extractedFields = processed,
                          res_metadata = md\<lparr>finalFieldsCount := Some (length processed)\<rparr>,
                          res_summary = None\<rparr>
                   in (Inr (extractionResult
                              \<lparr>res_summary := Some (generateExtractionSummary extractionResult)\<rparr>),
                       fx'))))"

section \<open>A concrete runtime and extractor for the examples\<close>

text \<open>
  The examples run custom rules whose patterns are literal strings. \<open>literal_scan\<close> is
  what \<open>matchAll\<close> yields for a global pattern whose source is a non-empty string
  without metacharacters: its occurrences from left to right, none overlapping another,
  with no capture group (the counter says how many characters of the last match are
  still to be skipped). The examples name their fields explicitly, so that no built-in
  rule is applied in them and the other functions of the runtime are not called. The
  rounding of \<open>literal_runtime\<close> is the identity: the numbers of the examples are chosen
  so that the doubles of the source compare as these reals do.
\<close>

fun literal_scan :: "string \<Rightarrow> nat \<Rightarrow> nat \<Rightarrow> string \<Rightarrow> regex_match list" where
  "literal_scan lit skip i [] = []"
| "literal_scan lit skip i (c # cs) =
     (if skip > 0 then literal_scan lit (skip - 1) (Suc i) cs
      else if take (length lit) (c # cs) = lit
      then \<lparr>m_index = i, m_full = lit, m_group1 = None\<rparr> # literal_scan lit (length lit - 1) (Suc i) cs
      else literal_scan lit 0 (Suc i) cs)"

definition literal_runtime :: js_runtime where
  "literal_runtime =
     \<lparr>regex_matchAll = (\<lambda>pattern text. literal_scan (re_source pattern) 0 0 text),
      Date_parse = (\<lambda>s. None), parseFloat = (\<lambda>s. None),
      toFixed2 = (\<lambda>x. []),
      toLocaleDateString = (\<lambda>jv. case jv of JString s \<Rightarrow> s | JOther j \<Rightarrow> j),
      toDouble = (\<lambda>x. x)\<rparr>"

definition example_config :: config where
  "example_config =
     \<lparr>cfg_llmProvider = ''ollama'', cfg_llmModel = ''llama3.2:3b'',
      cfg_maxLlmCostPerRequest = 0.01, cfg_openaiApiKey = None\<rparr>"

text \<open>
  \<open>addCustomRule('vendor', {patterns: [/Acme/g], validators: [v => v.length >= 3], priority: p})\<close>
  on a new extractor. Its validators close over nothing.
\<close>

definition vendor_rule :: "int \<Rightarrow> unit rule" where
  "vendor_rule p =
     \<lparr>patterns = [\<lparr>re_source = ''Acme'', re_flags = ''g''\<rparr>],
      validators = Some [stateless (\<lambda>v. length v \<ge> 3)],
      priority = p\<rparr>"

definition vendor_extractor :: "int \<Rightarrow> unit field_extractor" where
  "vendor_extractor p =
     (FieldExtractor_new literal_runtime example_config ())
       \<lparr>rulesEngine := addCustomRule (RulesEngine_new literal_runtime ()) ''vendor'' (vendor_rule p)\<rparr>"

definition vendor_options :: options where
  "vendor_options = default_options\<lparr>opt_specificFields := Some [''vendor'']\<rparr>"

definition acme_document :: document where
  "acme_document = \<lparr>doc_text = ''Bill from Acme'', doc_type = ''pdf'', doc_filename = ''bill.pdf''\<rparr>"

definition bolt_document :: document where
  "bolt_document = \<lparr>doc_text = ''Bill from Bolt'', doc_type = ''pdf'', doc_filename = ''bolt.pdf''\<rparr>"

text \<open>The candidate that the vendor rule finds in \<open>acme_document\<close>, and the one the fallback returns.\<close>

definition acme_from_rules :: "real \<Rightarrow> candidate" where
  "acme_from_rules conf =
     \<lparr>cand_value = ''Acme'', cand_is_string = True, confidence = conf, position = Some 10,
      cand_context = ''Bill from Acme'', cand_source = None\<rparr>"

definition acme_from_llm :: candidate where
  "acme_from_llm =
     \<lparr>cand_value = ''Acme'', cand_is_string = True, confidence = 0.7, position = None,
      cand_context = ''Extracted by LLM fallback'', cand_source = Some ''llm''\<rparr>"

definition twice_document :: document where
  "twice_document = \<lparr>doc_text = ''Acme or Acme'', doc_type = ''pdf'', doc_filename = ''twice.pdf''\<rparr>"

definition vendor_buyer_options :: options where
  "vendor_buyer_options = default_options\<lparr>opt_specificFields := Some [''vendor'', ''buyer'']\<rparr>"

text \<open>
  The backend answers \<open>{"vendor": "Acme", "buyer": "Bob"}\<close>, or \<open>{"vendor": 42}\<close>, or
  something that is not JSON, or not at all.
\<close>

definition acme_backend :: backend where
  "acme_backend text missingFields =
     Inr \<lparr>usage_input = 40, usage_output = 8, content_error = None,
          decoded = Some [''vendor'' \<mapsto> JString ''Acme'', ''buyer'' \<mapsto> JString ''Bob'']\<rparr>"

definition number_backend :: backend where
  "number_backend text missingFields =
     Inr \<lparr>usage_input = 40, usage_output = 8, content_error = None,
          decoded = Some [''vendor'' \<mapsto> JOther ''42'']\<rparr>"

definition garbled_backend :: backend where
  "garbled_backend text missingFields =
     Inr \<lparr>usage_input = 40, usage_output = 8, content_error = None, decoded = None\<rparr>"

definition refusing_backend :: backend where
  "refusing_backend text missingFields =
     Inl \<lparr>err_code = Some ''ECONNREFUSED'', err_status = None,
          err_message = ''connect ECONNREFUSED 127.0.0.1:11434''\<rparr>"

text \<open>
  A rule whose validator keeps state: \<open>const re = /Acme/g\<close> and the custom rule
  \<open>{patterns: [/Acme/g], validators: [v => re.test(v)], priority: 8}\<close>. The state is
  \<open>re.lastIndex\<close>: \<open>test\<close> searches the value from there; when it finds the pattern it
  sets \<open>lastIndex\<close> to the end of the match and returns true, and else it sets it to 0
  and returns false.
\<close>

definition acme_test :: "nat validator" where
  "acme_test lastIndex v =
     (case literal_scan ''Acme'' 0 lastIndex (drop lastIndex v) of
        [] \<Rightarrow> (Some False, 0)
      | m # ms \<Rightarrow> (Some True, m_index m + length (m_full m)))"

definition tested_rule :: "nat rule" where
  "tested_rule =
     \<lparr>patterns = [\<lparr>re_source = ''Acme'', re_flags = ''g''\<rparr>],
      validators = Some [acme_test],
      priority = 8\<rparr>"

definition tested_extractor :: "nat field_extractor" where
  "tested_extractor =
     (FieldExtractor_new literal_runtime example_config 0)
       \<lparr>rulesEngine := addCustomRule (RulesEngine_new literal_runtime 0) ''vendor'' tested_rule\<rparr>"

definition rules_only_options :: options where
  "rules_only_options =
     default_options\<lparr>opt_specificFields := Some [''vendor''], enableLLMFallback := False\<rparr>"

section \<open>Predicates on candidate lists and on rules\<close>

text \<open>
  The key under which \<open>removeDuplicates\<close> compares values, and a list of candidates whose
  confidences never increase.
\<close>

definition valueKey :: "candidate \<Rightarrow> string" where
  "valueKey c = toLowerCase (cand_value c)"

definition nonincreasing :: "candidate list \<Rightarrow> bool" where
  "nonincreasing cs = sorted (map (\<lambda>c. - confidence c) cs)"

text \<open>
  Two invariants of the loop of \<open>removeDuplicates\<close>: the map \<open>unique\<close> holds each candidate
  under its own key, and each key once; and every candidate seen so far has a kept
  candidate of its key that is at least as confident.
\<close>

definition keyed :: "(string \<times> candidate) list \<Rightarrow> bool" where
  "keyed unique = (distinct (map fst unique) \<and> (\<forall>(k, m) \<in> set unique. k = valueKey m))"

definition covers :: "(string \<times> candidate) list \<Rightarrow> candidate list \<Rightarrow> bool" where
  "covers unique seen =
     ((\<forall>key k. map_of unique key = Some k \<longrightarrow> valueKey k = key \<and> k \<in> set seen) \<and>
      (\<forall>m \<in> set seen. \<exists>k. map_of unique (valueKey m) = Some k \<and> confidence m \<le> confidence k))"

text \<open>
  A validator that leaves the state as it finds it, whatever the state and whatever the
  value; and an engine all of whose validators, built-in and custom, are such. The
  state is all that a verdict depends on beside the value: a validator that reads a
  clock or a random generator does not keep it.
\<close>

definition keeps_state :: "'h validator \<Rightarrow> bool" where
  "keeps_state f = (\<forall>h v. snd (f h v) = h)"

definition rule_keeps_state :: "'h rule \<Rightarrow> bool" where
  "rule_keeps_state r =
     (\<forall>f \<in> set (case validators r of None \<Rightarrow> [] | Some fs \<Rightarrow> fs). keeps_state f)"

definition validators_keep_state :: "'h rules_engine \<Rightarrow> bool" where
  "validators_keep_state eng =
     (\<forall>(fieldName, r) \<in> set (rules eng @ customRules eng). rule_keeps_state r)"

text \<open>Candidates whose values are strings, as those of the rules stage are.\<close>

definition string_valued :: "candidate list \<Rightarrow> bool" where
  "string_valued cs = (\<forall>c \<in> set cs. cand_is_string c)"

section \<open>The cost ledger\<close>

lemma toDouble_nonneg: "double_rounding rt \<Longrightarrow> 0 \<le> x \<Longrightarrow> 0 \<le> toDouble rt x"
  unfolding double_rounding_def using monoD [of "toDouble rt" 0 x] by simp

lemma toDouble_mono: "double_rounding rt \<Longrightarrow> x \<le> y \<Longrightarrow> toDouble rt x \<le> toDouble rt y"
  unfolding double_rounding_def using monoD [of "toDouble rt" x y] by simp

lemma price_nonneg:
  assumes "double_rounding rt" and "0 \<le> x"
  shows "0 \<le> num_div rt (num_lit rt x) 1000"
  unfolding num_div_def num_lit_def
  using assms(2) by (intro toDouble_nonneg [OF assms(1)] divide_nonneg_nonneg) simp_all

lemma PRICING_cases:
  "PRICING rt model = Some p \<Longrightarrow>
     p = (num_div rt (num_lit rt 0.00015) 1000, num_div rt (num_lit rt 0.0006) 1000)
     \<or> p = (num_div rt (num_lit rt 0.0005) 1000, num_div rt (num_lit rt 0.0015) 1000)
     \<or> p = (0, 0)"
  unfolding PRICING_def by (simp split: if_splits)

lemma PRICING_nonneg:
  assumes "double_rounding rt" and "PRICING rt model = Some p"
  shows "0 \<le> fst p \<and> 0 \<le> snd p"
  using PRICING_cases [OF assms(2)]
    price_nonneg [OF assms(1), of "0.00015"] price_nonneg [OF assms(1), of "0.0006"]
    price_nonneg [OF assms(1), of "0.0005"] price_nonneg [OF assms(1), of "0.0015"]
  by (elim disjE) simp_all

lemma calculateCost_nonneg:
  assumes "double_rounding rt" and "calculateCost rt model i j = Some c"
  shows "0 \<le> c"
proof -
  from assms(2) obtain p where pr: "PRICING rt model = Some p \<or> PRICING rt ''ollama'' = Some p"
    and c: "c = num_add rt (num_mul rt (real i) (fst p)) (num_mul rt (real j) (snd p))"
    by (auto simp: calculateCost_def Let_def split: option.splits if_splits)
  from pr have p: "0 \<le> fst p \<and> 0 \<le> snd p"
    using PRICING_nonneg [OF assms(1)] by blast
  show ?thesis
    unfolding c num_add_def num_mul_def
    using p by (intro toDouble_nonneg [OF assms(1)] add_nonneg_nonneg mult_nonneg_nonneg) simp_all
qed

lemma calculateCost_number:
  "model \<notin> set inherited_keys \<Longrightarrow> \<exists>c. calculateCost rt model i j = Some c"
  by (auto simp: calculateCost_def PRICING_def Let_def split: option.splits)

text \<open>
  A tracked request for a model that the price table knows or defaults keeps the day's
  total at or above any double that it had reached.
\<close>

lemma dailyTotalOn_trackRequest:
  assumes "double_rounding rt" and "toDouble rt cap = cap" and "model \<notin> set inherited_keys"
    and "cap \<le> dailyTotalOn t day"
  shows "cap \<le> dailyTotalOn (snd (trackRequest rt t now sessionId model i j)) day"
proof -
  obtain c where c: "calculateCost rt model i j = Some c"
    using calculateCost_number [OF assms(3)] by blast
  have c0: "0 \<le> c" using calculateCost_nonneg [OF assms(1) c] .
  show ?thesis
  proof (cases "day = isoDate now")
    case True
    have "cap = toDouble rt cap" using assms(2) by simp
    also have "\<dots> \<le> toDouble rt (dailyTotalOn t day + c)"
      using assms(4) c0 by (intro toDouble_mono [OF assms(1)]) simp
    finally show ?thesis
      using True c
      by (simp add: dailyTotalOn_def trackRequest_def Let_def nan_add_def num_add_def orZero_def)
  next
    case False
    then show ?thesis
      using assms(4) by (simp add: dailyTotalOn_def trackRequest_def Let_def)
  qed
qed

lemma dailyTotalOn_reset_session:
  "s \<noteq> [] \<Longrightarrow> dailyTotalOn (reset t (Some s)) day = dailyTotalOn t day"
  by (simp add: dailyTotalOn_def reset_def)

lemma dailyTotalOn_ledger_step:
  assumes "double_rounding rt" and "toDouble rt cap = cap" and "keeps_daily_total op"
    and "cap \<le> dailyTotalOn t day"
  shows "cap \<le> dailyTotalOn (ledger_step rt t op) day"
  using assms(3,4)
  by (cases op rule: keeps_daily_total.cases)
    (simp_all add: dailyTotalOn_trackRequest [OF assms(1,2)] dailyTotalOn_reset_session)

lemma dailyTotalOn_ledger_run:
  assumes "double_rounding rt" and "toDouble rt cap = cap"
  shows "list_all keeps_daily_total ops \<Longrightarrow> cap \<le> dailyTotalOn t day \<Longrightarrow>
         cap \<le> dailyTotalOn (ledger_run rt t ops) day"
proof (induction ops arbitrary: t)
  case Nil
  then show ?case by (simp add: ledger_run_def)
next
  case (Cons op ops)
  have "cap \<le> dailyTotalOn (ledger_step rt t op) day"
    using Cons.prems by (intro dailyTotalOn_ledger_step [OF assms]) simp_all
  then have "cap \<le> dailyTotalOn (ledger_run rt (ledger_step rt t op) ops) day"
    using Cons.prems by (intro Cons.IH) simp_all
  then show ?case by (simp add: ledger_run_def)
qed

lemma canMakeRequest_daily:
  "allowed (canMakeRequest rt t now sessionId perRequest (Some cap)) =
     (cap = 0 \<or> num_add rt (dailyTotalOn t (isoDate now)) perRequest \<le> cap)"
  by (auto simp: canMakeRequest_def dailyTotalOn_def Let_def)

lemma literal_rounding: "double_rounding literal_runtime"
  by (simp add: double_rounding_def literal_runtime_def mono_def)

text \<open>
  Claim C1, as stated, fails: a tracked request of 2000 input tokens of
  \<open>gpt-3.5-turbo\<close> brings the day's total to 0.001; with the daily cap 0.001 the total
  has reached the cap, and \<open>canMakeRequest(sessionId, 0, 0.001)\<close> is still allowed, since
  the test is \<open>dailyTotal + maxCostPerRequest > maxDailyCost\<close>. (In doubles too,
  \<open>2000 * (0.0005 / 1000)\<close> is the double \<open>0.001\<close>.)
\<close>

theorem daily_cap_counterexample:
  "dailyTotalOn (snd (trackRequest literal_runtime CostTracker_new 1000 ''s1'' ''gpt-3.5-turbo'' 2000 0))
       (isoDate 1000) = 0.001
   \<and> allowed (canMakeRequest literal_runtime
        (snd (trackRequest literal_runtime CostTracker_new 1000 ''s1'' ''gpt-3.5-turbo'' 2000 0))
        2000 ''s2'' 0 (Some 0.001))"
  by (simp add: dailyTotalOn_def canMakeRequest_def trackRequest_def Let_def CostTracker_new_def
      calculateCost_def PRICING_def isoDate_def literal_runtime_def num_add_def num_mul_def
      num_div_def num_lit_def nan_add_def orZero_def)

text \<open>
  Claim C1, amended. Let the daily cap be a double other than zero, and let the
  per-request cap be large enough for the cap to grow when it is added, in the
  arithmetic of doubles: \<open>maxDailyCost + maxPerRequest > maxDailyCost\<close> (a positive
  \<open>maxPerRequest\<close> that is too small is absorbed by the rounding of the sum, and the
  request is allowed). Then, once the day's total has reached the cap, every later call
  of \<open>canMakeRequest\<close> on that day with these caps is denied, for every session id,
  whatever requests are tracked (with token counts that are natural numbers) and
  whatever sessions are reset in between, as long as the whole ledger is not reset and
  no request is tracked for a model named like a property that the price table inherits
  (\<open>constructor\<close>, \<open>toString\<close>, ...: its cost is \<open>NaN\<close>, and the total of the day is
  then read as 0). Of the rounding the proof uses that it is monotone and maps 0 to 0.
\<close>

theorem daily_cap_denies:
  assumes "double_rounding rt"
    and "cap \<noteq> 0"
    and "toDouble rt cap = cap"
    and "cap \<le> dailyTotalOn t (isoDate now)"
    and "list_all keeps_daily_total ops"
    and "isoDate later = isoDate now"
    and "cap < num_add rt cap perRequest"
  shows "\<not> allowed (canMakeRequest rt (ledger_run rt t ops) later sessionId perRequest (Some cap))"
proof -
  have "cap \<le> dailyTotalOn (ledger_run rt t ops) (isoDate later)"
    using assms(4,5,6) dailyTotalOn_ledger_run [OF assms(1,3), of ops t "isoDate now"] by simp
  then have "num_add rt cap perRequest
      \<le> num_add rt (dailyTotalOn (ledger_run rt t ops) (isoDate later)) perRequest"
    unfolding num_add_def by (intro toDouble_mono [OF assms(1)]) simp
  then show ?thesis
    using assms(2,7) by (simp add: canMakeRequest_daily)
qed

theorem daily_cap_denies_witness:
  "double_rounding literal_runtime
   \<and> (0.001::real) \<noteq> 0
   \<and> toDouble literal_runtime 0.001 = 0.001
   \<and> 0.001 \<le> dailyTotalOn (snd (trackRequest literal_runtime CostTracker_new 1000 ''s1''
               ''gpt-3.5-turbo'' 2000 0)) (isoDate 1000)
   \<and> list_all keeps_daily_total [Track 5000 ''s2'' ''gpt-4o-mini'' 100 20, Reset (Some ''s1'')]
   \<and> isoDate 7000 = isoDate 1000
   \<and> 0.001 < num_add literal_runtime 0.001 0.01
   \<and> \<not> allowed (canMakeRequest literal_runtime
         (ledger_run literal_runtime
            (snd (trackRequest literal_runtime CostTracker_new 1000 ''s1'' ''gpt-3.5-turbo'' 2000 0))
            [Track 5000 ''s2'' ''gpt-4o-mini'' 100 20, Reset (Some ''s1'')])
         7000 ''s3'' 0.01 (Some 0.001))"
proof -
  have r: "double_rounding literal_runtime"
    by (simp add: double_rounding_def literal_runtime_def mono_def)
  have z: "(0.001::real) \<noteq> 0"
    by simp
  have d: "toDouble literal_runtime 0.001 = 0.001"
    by (simp add: literal_runtime_def)
  have a: "(0.001::real) \<le> dailyTotalOn (snd (trackRequest literal_runtime CostTracker_new 1000 ''s1''
               ''gpt-3.5-turbo'' 2000 0)) (isoDate 1000)"
    by (simp add: dailyTotalOn_def trackRequest_def Let_def CostTracker_new_def calculateCost_def
        PRICING_def isoDate_def literal_runtime_def num_add_def num_mul_def num_div_def num_lit_def
        nan_add_def orZero_def)
  have b: "list_all keeps_daily_total [Track 5000 ''s2'' ''gpt-4o-mini'' 100 20, Reset (Some ''s1'')]"
    by (simp add: inherited_keys_def)
  have c: "isoDate 7000 = isoDate 1000"
    by (simp add: isoDate_def)
  have e: "0.001 < num_add literal_runtime 0.001 0.01"
    by (simp add: num_add_def literal_runtime_def)
  show ?thesis
    using r z d a b c e daily_cap_denies [OF r z d a b c e, of "''s3''"]
    by simp
qed

text \<open>
  Claim C10: the pre-flight check of \<open>LLMProvider.extractFields\<close>, which passes no daily
  cap, allows every request, for every ledger, session id and per-request cap; so the
  provider never fails with the error \<open>Cost limit exceeded\<close>.
\<close>

theorem preflight_never_denies:
  "allowed (canMakeRequest rt t now sessionId cap None)
   \<and> (\<forall>why. fst (LLM_extractFields p rt cfg transport now text missingFields sessionId)
         \<noteq> Inl (CostLimitExceeded why))"
  by (auto simp: canMakeRequest_def LLM_extractFields_def callOllama_def callOpenAI_def Let_def
      split: sum.splits option.splits)

section \<open>Ranked candidate lists\<close>

lemma set_update_subset: "set (AList.update k v al) \<subseteq> insert (k, v) (set al)"
  by (induction al) auto

lemma nonincreasing_byConfidence: "nonincreasing (byConfidence cs)"
  by (simp add: nonincreasing_def byConfidence_def)

lemma set_byConfidence: "set (byConfidence cs) = set cs"
  by (simp add: byConfidence_def)

lemma length_byConfidence: "length (byConfidence cs) = length cs"
  by (simp add: byConfidence_def)

lemma nonincreasing_take: "nonincreasing cs \<Longrightarrow> nonincreasing (take n cs)"
  by (simp add: nonincreasing_def take_map [symmetric] sorted_wrt_take)

lemma nonincreasing_hd:
  "nonincreasing (best # others) \<Longrightarrow> c \<in> set (best # others) \<Longrightarrow> confidence c \<le> confidence best"
  by (auto simp: nonincreasing_def)

lemma distinct_keys_byConfidence:
  "distinct (map valueKey (byConfidence cs)) = distinct (map valueKey cs)"
  by (simp add: byConfidence_def distinct_map)

lemma distinct_keys_take: "distinct (map valueKey cs) \<Longrightarrow> distinct (map valueKey (take n cs))"
  by (simp add: take_map [symmetric] distinct_take)

lemma string_valued_take: "string_valued cs \<Longrightarrow> string_valued (take n cs)"
  unfolding string_valued_def using set_take_subset [of n cs] by blast

subsection \<open>The loop of removeDuplicates\<close>

lemma keyed_update:
  "keyed unique \<Longrightarrow> keyed (AList.update (valueKey m) m unique)"
  unfolding keyed_def using set_update_subset [of "valueKey m" m unique]
  by (auto simp: distinct_update)

lemma keyed_keepBest: "keyed unique \<Longrightarrow> keyed (keepBest unique m)"
  using keyed_update [of unique m]
  by (auto simp: keepBest_def Let_def valueKey_def split: option.splits)

lemma keyed_foldl: "keyed unique \<Longrightarrow> keyed (foldl keepBest unique found)"
  by (induction found arbitrary: unique) (simp_all add: keyed_keepBest)

lemma keyed_distinct_keys: "keyed unique \<Longrightarrow> distinct (map valueKey (map snd unique))"
proof -
  assume k: "keyed unique"
  then have eq: "map (valueKey \<circ> snd) unique = map fst unique"
    by (intro map_cong) (auto simp: keyed_def)
  from k have "distinct (map fst unique)"
    by (simp add: keyed_def)
  then show ?thesis
    by (simp only: map_map eq)
qed

lemma distinct_keys_removeDuplicates: "distinct (map valueKey (removeDuplicates found))"
proof -
  have "keyed (foldl keepBest [] found)"
    by (rule keyed_foldl) (simp add: keyed_def)
  then show ?thesis
    using keyed_distinct_keys [of "foldl keepBest [] found"]
    by (simp add: removeDuplicates_def distinct_keys_byConfidence)
qed

lemma map_of_keepBest:
  "map_of (keepBest unique m) key =
     (if key = valueKey m \<and> (case map_of unique key of None \<Rightarrow> True | Some old \<Rightarrow> confidence old < confidence m)
      then Some m else map_of unique key)"
  by (auto simp: keepBest_def Let_def valueKey_def update_conv' split: option.splits)

lemma covers_keepBest:
  assumes "covers unique seen"
  shows "covers (keepBest unique m) (seen @ [m])"
proof -
  have a: "\<And>key k. map_of unique key = Some k \<Longrightarrow> valueKey k = key \<and> k \<in> set seen"
    and b: "\<And>x. x \<in> set seen \<Longrightarrow> \<exists>k. map_of unique (valueKey x) = Some k \<and> confidence x \<le> confidence k"
    using assms by (auto simp: covers_def)
  have 1: "valueKey k = key \<and> k \<in> set (seen @ [m])"
    if "map_of (keepBest unique m) key = Some k" for key k
    using that a [of key k] by (auto simp: map_of_keepBest split: if_splits)
  have 2: "\<exists>k. map_of (keepBest unique m) (valueKey x) = Some k \<and> confidence x \<le> confidence k"
    if "x \<in> set (seen @ [m])" for x
  proof (cases "x = m")
    case True
    then show ?thesis
      by (cases "map_of unique (valueKey m)") (auto simp: map_of_keepBest)
  next
    case False
    with that have "x \<in> set seen" by simp
    from b [OF this] obtain k where k: "map_of unique (valueKey x) = Some k" "confidence x \<le> confidence k"
      by blast
    then show ?thesis
      by (auto simp: map_of_keepBest)
  qed
  show ?thesis
    unfolding covers_def using 1 2 by blast
qed

lemma covers_foldl: "covers unique seen \<Longrightarrow> covers (foldl keepBest unique found) (seen @ found)"
proof (induction found arbitrary: unique seen)
  case Nil
  then show ?case by simp
next
  case (Cons m found)
  from Cons.IH [OF covers_keepBest [OF Cons.prems, of m]] show ?case by simp
qed

lemma removeDuplicates_keeps_best:
  assumes "m \<in> set found"
  shows "\<exists>k \<in> set (removeDuplicates found). k \<in> set found \<and> valueKey k = valueKey m
            \<and> confidence m \<le> confidence k"
proof -
  have "covers (foldl keepBest [] found) ([] @ found)"
    by (rule covers_foldl) (simp add: covers_def)
  with assms obtain k where k: "map_of (foldl keepBest [] found) (valueKey m) = Some k"
      "confidence m \<le> confidence k" "valueKey k = valueKey m" "k \<in> set found"
    unfolding covers_def by fastforce
  from k(1) have "k \<in> set (removeDuplicates found)"
    by (auto simp: removeDuplicates_def set_byConfidence dest!: map_of_SomeD intro!: image_eqI [where x = "(valueKey m, k)"])
  with k show ?thesis by blast
qed

lemma set_removeDuplicates: "set (removeDuplicates found) \<subseteq> set found"
proof -
  have "covers (foldl keepBest [] found) ([] @ found)"
    by (rule covers_foldl) (simp add: covers_def)
  moreover have "distinct (map fst (foldl keepBest [] found))"
    using keyed_foldl [of "[]" found] by (simp add: keyed_def)
  ultimately show ?thesis
    by (auto simp: removeDuplicates_def set_byConfidence covers_def)
qed

lemma removeDuplicates_nonempty: "found \<noteq> [] \<Longrightarrow> removeDuplicates found \<noteq> []"
  using removeDuplicates_keeps_best [of "hd found" found] by auto

lemma string_valued_removeDuplicates: "string_valued found \<Longrightarrow> string_valued (removeDuplicates found)"
  unfolding string_valued_def using set_removeDuplicates [of found] by blast

subsection \<open>The values of the rules stage are strings\<close>

lemma matchCandidate_string:
  "fst (matchCandidate h text r fieldName pattern m) = Some c \<Longrightarrow> cand_is_string c"
  by (auto simp: matchCandidate_def Let_def split: option.splits prod.splits if_splits)

lemma addMatches_strings:
  "string_valued acc \<Longrightarrow> string_valued (fst (addMatches h text r fieldName pattern ms acc))"
proof (induction ms arbitrary: h acc)
  case Nil
  then show ?case by simp
next
  case (Cons m ms)
  obtain found h' where mc: "matchCandidate h text r fieldName pattern m = (found, h')"
    by (cases "matchCandidate h text r fieldName pattern m")
  have "string_valued (case found of None \<Rightarrow> acc | Some c \<Rightarrow> acc @ [c])"
    using Cons.prems matchCandidate_string [of h "text" r fieldName pattern m] mc
    by (auto simp: string_valued_def split: option.splits)
  from Cons.IH [OF this] show ?case
    by (simp add: mc)
qed

lemma collectMatches_strings:
  "fst (collectMatches rt h text r fieldName ps acc) = Inr out \<Longrightarrow> string_valued acc \<Longrightarrow>
     string_valued out"
proof (induction ps arbitrary: h acc)
  case Nil
  then show ?case by simp
next
  case (Cons pattern ps)
  show ?case
  proof (cases "matchAll rt text pattern")
    case (Inl e)
    with Cons.prems show ?thesis by simp
  next
    case (Inr patternMatches)
    obtain acc' h' where am: "addMatches h text r fieldName pattern patternMatches acc = (acc', h')"
      by (cases "addMatches h text r fieldName pattern patternMatches acc")
    have "string_valued acc'"
      using addMatches_strings [OF Cons.prems(2), of h "text" r fieldName pattern patternMatches] am
      by simp
    moreover have "fst (collectMatches rt h' text r fieldName ps acc') = Inr out"
      using Cons.prems(1) Inr am by simp
    ultimately show ?thesis
      by (intro Cons.IH)
  qed
qed

lemma extractField_strings:
  assumes "fst (extractField rt h text r fieldName) = Inr found"
  shows "string_valued found"
proof -
  obtain res h' where cm: "collectMatches rt h text r fieldName (patterns r) [] = (res, h')"
    by (cases "collectMatches rt h text r fieldName (patterns r) []")
  with assms obtain raw where raw: "res = Inr raw" "found = byConfidence raw"
    by (cases res) (auto simp: extractField_def)
  have "string_valued raw"
    using collectMatches_strings [of rt h "text" r fieldName "patterns r" "[]" raw] cm raw(1)
    by (simp add: string_valued_def)
  then show ?thesis
    by (simp add: raw(2) string_valued_def set_byConfidence)
qed

lemma applyRules_strings:
  "fst (applyRules rt h text rs results) = Inr out \<Longrightarrow>
   \<forall>(f, cs) \<in> set results. string_valued cs \<Longrightarrow>
   \<forall>(f, cs) \<in> set out. string_valued cs"
proof (induction rs arbitrary: h results)
  case Nil
  then show ?case by simp
next
  case (Cons entry rs)
  obtain fieldName r where entry: "entry = (fieldName, r)" by (cases entry)
  obtain res h' where ef: "extractField rt h text r fieldName = (res, h')"
    by (cases "extractField rt h text r fieldName")
  with Cons.prems(1) entry obtain found where found: "res = Inr found"
    by (cases res) auto
  have "string_valued found"
    using extractField_strings [of rt h "text" r fieldName found] ef found by simp
  then have "\<forall>(f, cs) \<in> set (AList.update fieldName found results). string_valued cs"
    using Cons.prems(2) set_update_subset [of fieldName found results] by auto
  moreover have "fst (applyRules rt h' text rs (AList.update fieldName found results)) = Inr out"
    using Cons.prems(1) entry ef found by simp
  ultimately show ?case
    by (intro Cons.IH)
qed

subsection \<open>Validators that keep no state\<close>

lemma everyValidator_keeps:
  "\<forall>f \<in> set fs. keeps_state f \<Longrightarrow> snd (everyValidator h v fs) = h"
proof (induction fs)
  case Nil
  then show ?case by simp
next
  case (Cons f fs)
  obtain verdict h' where fv: "f h v = (verdict, h')" by (cases "f h v")
  from Cons.prems have "snd (f h v) = h" by (simp add: keeps_state_def)
  with fv have "h' = h" by simp
  with fv Cons show ?case by simp
qed

lemma validateValue_keeps:
  "rule_keeps_state r \<Longrightarrow> snd (validateValue h v (validators r)) = h"
  by (cases "validators r") (simp_all add: validateValue_def rule_keeps_state_def everyValidator_keeps)

lemma validateValue_keeps_pair:
  "rule_keeps_state r \<Longrightarrow> validateValue h v (validators r) = (valid, h') \<Longrightarrow> h' = h"
  using validateValue_keeps [of r h v] by simp

lemma matchCandidate_keeps:
  "rule_keeps_state r \<Longrightarrow> snd (matchCandidate h text r fieldName pattern m) = h"
  by (auto simp: matchCandidate_def Let_def dest: validateValue_keeps_pair
      split: option.splits prod.splits)

lemma addMatches_keeps:
  "rule_keeps_state r \<Longrightarrow> snd (addMatches h text r fieldName pattern ms acc) = h"
proof (induction ms arbitrary: acc)
  case Nil
  then show ?case by simp
next
  case (Cons m ms)
  obtain found h' where mc: "matchCandidate h text r fieldName pattern m = (found, h')"
    by (cases "matchCandidate h text r fieldName pattern m")
  with matchCandidate_keeps [OF Cons.prems, of h "text" fieldName pattern m] have "h' = h" by simp
  with mc Cons show ?case by simp
qed

lemma collectMatches_keeps:
  "rule_keeps_state r \<Longrightarrow> snd (collectMatches rt h text r fieldName ps acc) = h"
proof (induction ps arbitrary: acc)
  case Nil
  then show ?case by simp
next
  case (Cons pattern ps)
  show ?case
  proof (cases "matchAll rt text pattern")
    case (Inl e)
    then show ?thesis by simp
  next
    case (Inr patternMatches)
    obtain acc' h' where am: "addMatches h text r fieldName pattern patternMatches acc = (acc', h')"
      by (cases "addMatches h text r fieldName pattern patternMatches acc")
    with addMatches_keeps [OF Cons.prems, of h "text" fieldName pattern patternMatches acc]
    have "h' = h" by simp
    with am Inr Cons show ?thesis by simp
  qed
qed

lemma extractField_keeps:
  "rule_keeps_state r \<Longrightarrow> snd (extractField rt h text r fieldName) = h"
  using collectMatches_keeps [of r rt h "text" fieldName "patterns r" "[]"]
  by (auto simp: extractField_def split: prod.splits sum.splits)

lemma applyRules_keeps:
  "\<forall>(f, r) \<in> set rs. rule_keeps_state r \<Longrightarrow> snd (applyRules rt h text rs results) = h"
proof (induction rs arbitrary: results)
  case Nil
  then show ?case by simp
next
  case (Cons entry rs)
  obtain fieldName r where entry: "entry = (fieldName, r)" by (cases entry)
  obtain res h' where ef: "extractField rt h text r fieldName = (res, h')"
    by (cases "extractField rt h text r fieldName")
  from Cons.prems entry have "rule_keeps_state r" by simp
  from extractField_keeps [OF this, of rt h "text" fieldName] ef have h': "h' = h" by simp
  show ?case
  proof (cases res)
    case (Inl e)
    with entry ef h' show ?thesis by simp
  next
    case (Inr found)
    with entry ef h' Cons show ?thesis by simp
  qed
qed

lemma extractFields_keeps:
  assumes "validators_keep_state eng"
  shows "snd (extractFields rt eng text sf) = eng"
proof -
  define builtin where "builtin = (case sf of
      Some fs \<Rightarrow> filter (\<lambda>(key, r). key \<in> set fs) (rules eng) | None \<Rightarrow> rules eng)"
  define custom where "custom = filter (\<lambda>(fieldName, r).
      (case sf of None \<Rightarrow> True | Some fs \<Rightarrow> fieldName \<in> set fs)) (customRules eng)"
  have b: "\<forall>(f, r) \<in> set builtin. rule_keeps_state r"
    using assms by (auto simp: builtin_def validators_keep_state_def split: option.splits)
  have c: "\<forall>(f, r) \<in> set custom. rule_keeps_state r"
    using assms by (auto simp: custom_def validators_keep_state_def)
  have 1: "snd (applyRules rt (closures eng) text builtin []) = closures eng"
    using b by (rule applyRules_keeps)
  have 2: "snd (applyRules rt (closures eng) text custom results) = closures eng" for results
    using c by (rule applyRules_keeps)
  obtain res1 h1 where r1: "applyRules rt (closures eng) text builtin [] = (res1, h1)"
    by (cases "applyRules rt (closures eng) text builtin []")
  with 1 have h1: "h1 = closures eng" by simp
  show ?thesis
  proof (cases res1)
    case (Inl e)
    with r1 h1 show ?thesis
      by (simp add: extractFields_def Let_def builtin_def [symmetric])
  next
    case (Inr found)
    obtain res2 h2 where r2: "applyRules rt (closures eng) text custom found = (res2, h2)"
      by (cases "applyRules rt (closures eng) text custom found")
    with 2 [of found] have h2: "h2 = closures eng" by simp
    from Inr r1 h1 r2 h2 show ?thesis
      by (cases res2) (simp_all add: extractFields_def Let_def builtin_def [symmetric] custom_def [symmetric])
  qed
qed

subsection \<open>The rules stage\<close>

lemma rankField_entries:
  "(f, cs) \<in> set (foldl rankField acc results) \<Longrightarrow>
     (f, cs) \<in> set acc \<or> (\<exists>found. (f, found) \<in> set results \<and> found \<noteq> [] \<and> cs = take 5 (removeDuplicates found))"
proof (induction results arbitrary: acc)
  case Nil
  then show ?case by simp
next
  case (Cons entry results)
  obtain g found where entry: "entry = (g, found)" by (cases entry)
  from Cons.prems have "(f, cs) \<in> set (foldl rankField (rankField acc entry) results)"
    by simp
  from Cons.IH [OF this] show ?case
  proof
    assume "(f, cs) \<in> set (rankField acc entry)"
    then show ?thesis
      using set_update_subset [of g "take 5 (removeDuplicates found)" acc]
      by (auto simp: rankField_def entry split: if_splits)
  next
    assume "\<exists>found. (f, found) \<in> set results \<and> found \<noteq> [] \<and> cs = take 5 (removeDuplicates found)"
    then show ?thesis by auto
  qed
qed

lemma extractFields_results:
  assumes "fst (extractFields rt eng text sf) = Inr rr"
  shows "\<exists>results. rr = rankAndCleanResults results \<and> (\<forall>(f, cs) \<in> set results. string_valued cs)"
proof -
  define builtin where "builtin = (case sf of
      Some fs \<Rightarrow> filter (\<lambda>(key, r). key \<in> set fs) (rules eng) | None \<Rightarrow> rules eng)"
  define custom where "custom = filter (\<lambda>(fieldName, r).
      (case sf of None \<Rightarrow> True | Some fs \<Rightarrow> fieldName \<in> set fs)) (customRules eng)"
  obtain res1 h1 where r1: "applyRules rt (closures eng) text builtin [] = (res1, h1)"
    by (cases "applyRules rt (closures eng) text builtin []")
  from assms r1 obtain found where found: "res1 = Inr found"
    by (cases res1) (auto simp: extractFields_def Let_def builtin_def [symmetric])
  obtain res2 h2 where r2: "applyRules rt h1 text custom found = (res2, h2)"
    by (cases "applyRules rt h1 text custom found")
  from assms r1 found r2 obtain results where results: "res2 = Inr results"
    and rr: "rr = rankAndCleanResults results"
    by (cases res2) (auto simp: extractFields_def Let_def builtin_def [symmetric] custom_def [symmetric])
  have "\<forall>(f, cs) \<in> set found. string_valued cs"
    using applyRules_strings [of rt "closures eng" "text" builtin "[]" found] r1 found by simp
  then have "\<forall>(f, cs) \<in> set results. string_valued cs"
    using applyRules_strings [of rt h1 "text" custom found results] r2 results by simp
  with rr show ?thesis by blast
qed

lemma extractFields_entries:
  assumes "fst (extractFields rt eng text sf) = Inr rr" and "(f, cs) \<in> set rr"
  shows "\<exists>found. found \<noteq> [] \<and> string_valued found \<and> cs = take 5 (removeDuplicates found)"
proof -
  from extractFields_results [OF assms(1)] obtain results
    where rr: "rr = rankAndCleanResults results"
      and strings: "\<forall>(f, cs) \<in> set results. string_valued cs"
    by blast
  from rr assms(2) obtain found where "(f, found) \<in> set results" "found \<noteq> []"
      "cs = take 5 (removeDuplicates found)"
    using rankField_entries [of f cs "[]" results] by (auto simp: rankAndCleanResults_def)
  with strings show ?thesis by blast
qed

lemma extractFields_nonincreasing:
  "fst (extractFields rt eng text sf) = Inr rr \<Longrightarrow> (f, cs) \<in> set rr \<Longrightarrow> nonincreasing cs"
  by (auto dest!: extractFields_entries
      simp: removeDuplicates_def nonincreasing_take nonincreasing_byConfidence)

lemma extractFields_distinct_keys:
  "fst (extractFields rt eng text sf) = Inr rr \<Longrightarrow> (f, cs) \<in> set rr \<Longrightarrow> distinct (map valueKey cs)"
  by (auto dest!: extractFields_entries simp: distinct_keys_take distinct_keys_removeDuplicates)

lemma extractFields_nonempty:
  "fst (extractFields rt eng text sf) = Inr rr \<Longrightarrow> (f, cs) \<in> set rr \<Longrightarrow> cs \<noteq> []"
  by (auto dest!: extractFields_entries simp: removeDuplicates_nonempty)

lemma extractFields_strings:
  "fst (extractFields rt eng text sf) = Inr rr \<Longrightarrow> (f, cs) \<in> set rr \<Longrightarrow> string_valued cs"
  by (auto dest!: extractFields_entries simp: string_valued_take string_valued_removeDuplicates)

subsection \<open>Gaps and the merge\<close>

lemma identifyMissingFields_gap:
  "f \<in> set (identifyMissingFields fx rr th sf) \<Longrightarrow>
     (case map_of rr f of None \<Rightarrow> True | Some [] \<Rightarrow> True
      | Some (bestMatch # others) \<Rightarrow> confidence bestMatch < th)"
  by (auto simp: identifyMissingFields_def Let_def)

lemma map_of_mergeField:
  "g \<noteq> f \<Longrightarrow> map_of (mergeField llm merged g) f = map_of merged f"
  by (auto simp: mergeField_def Let_def update_conv' split: option.splits)

lemma map_of_mergeResults_other:
  "f \<notin> set missing \<Longrightarrow> map_of (mergeResults rr llm missing) f = map_of rr f"
  unfolding mergeResults_def
  by (induction missing arbitrary: rr) (auto simp: map_of_mergeField)

lemma mergeResults_nothing: "mergeResults rr [] missing = rr"
  unfolding mergeResults_def
  by (induction missing) (simp_all add: mergeField_def)

lemma confident_not_missing:
  assumes "fst (extractFields rt (rulesEngine fx) text sf) = Inr rr"
    and "map_of rr f = Some cs" and "c \<in> set cs" and "th \<le> confidence c"
  shows "f \<notin> set (identifyMissingFields fx rr th sf)"
proof
  assume gap: "f \<in> set (identifyMissingFields fx rr th sf)"
  from assms(2) have mem: "(f, cs) \<in> set rr" by (rule map_of_SomeD)
  from assms(3) obtain best others where cs: "cs = best # others" by (cases cs) auto
  have "nonincreasing cs"
    using assms(1) mem by (rule extractFields_nonincreasing)
  with cs assms(3) have "confidence c \<le> confidence best"
    using nonincreasing_hd [of best others c] by simp
  moreover from identifyMissingFields_gap [OF gap] assms(2) cs have "confidence best < th"
    by simp
  ultimately show False using assms(4) by simp
qed

lemma fallbackPhase_fields:
  "fst (fallbackPhase fx rt cfg transport now doc opts rr md missing) = rr \<or>
   (\<exists>llm. fst (fallbackPhase fx rt cfg transport now doc opts rr md missing) = mergeResults rr llm missing)"
  by (auto simp: fallbackPhase_def split: prod.splits sum.splits)

subsection \<open>Evaluating the examples\<close>

lemmas string_defs = trim_def is_space_def is_digit_def is_word_def is_upper_def toLowerCase_def
  toLowerChar_def toUpperChar_def substring_def

lemmas rules_defs = extractFields_def extractField_def matchAll_def
  matchCandidate_def cleanValue_def validateValue_def
  stateless_def calculateConfidence_def extractContext_def
  byConfidence_def rankAndCleanResults_def rankField_def removeDuplicates_def keepBest_def
  List.map_filter_simps Let_def

lemmas ledger_defs = canMakeRequest_def trackRequest_def calculateCost_def PRICING_def isoDate_def
  nan_add_def orZero_def num_add_def num_mul_def num_div_def num_lit_def inherited_keys_def

lemmas extract_defs = FieldExtractor_extract_def fallbackPhase_def rulesMetadata_def
  identifyMissingFields_def getExtractionStats_def LLM_extractFields_def callOllama_def
  mergeResults_def mergeField_def parseExtractionResponse_def llmCandidate_def
  postProcess_def postProcessFieldValue_def
  jsValue_def generateExtractionSummary_def calculateAverageConfidence_def
  getReviewRecommendations_def fieldRecommendation_def js_div_def List.map_filter_simps Let_def

lemmas example_defs = acme_document_def vendor_options_def default_options_def acme_backend_def
  refusing_backend_def acme_from_rules_def CostTracker_new_def

lemma builtin_length: "length (EXTRACTION_RULES rt) = 8"
  by (simp add: EXTRACTION_RULES_def)

lemma builtin_filter_vendor:
  "filter (\<lambda>(key, r). key = ''vendor'') (EXTRACTION_RULES rt) = []"
  "filter (\<lambda>(key, r). key = ''vendor'' \<or> key = ''buyer'') (EXTRACTION_RULES rt) = []"
  by (simp_all add: EXTRACTION_RULES_def)

lemma builtin_keep_state: "(f, r) \<in> set (EXTRACTION_RULES rt) \<Longrightarrow> rule_keeps_state r"
  by (auto simp: EXTRACTION_RULES_def rule_keeps_state_def keeps_state_def stateless_def)

lemma vendor_engine:
  "rulesEngine (vendor_extractor p) =
     \<lparr>rules = EXTRACTION_RULES literal_runtime, customRules = [(''vendor'', vendor_rule p)],
      closures = ()\<rparr>"
  by (simp add: vendor_extractor_def FieldExtractor_new_def RulesEngine_new_def addCustomRule_def)

lemma vendor_registry:
  "length (rules (rulesEngine (vendor_extractor p))) = 8"
  "length (customRules (rulesEngine (vendor_extractor p))) = 1"
  by (simp_all add: vendor_engine builtin_length)

lemma vendor_provider:
  "llmProvider (vendor_extractor p) =
     \<lparr>costTracker = CostTracker_new, provider = ''ollama'', llm_model = ''llama3.2:3b'',
      maxCostPerRequest = 0.01\<rparr>"
  by (simp add: vendor_extractor_def FieldExtractor_new_def LLMProvider_new_def example_config_def)

lemma literal_scans:
  "regex_matchAll literal_runtime \<lparr>re_source = ''Acme'', re_flags = ''g''\<rparr> ''Bill from Acme'' =
     [\<lparr>m_index = 10, m_full = ''Acme'', m_group1 = None\<rparr>]"
  "regex_matchAll literal_runtime \<lparr>re_source = ''Acme'', re_flags = ''g''\<rparr> ''Bill from Bolt'' = []"
  "regex_matchAll literal_runtime \<lparr>re_source = ''Acme'', re_flags = ''g''\<rparr> ''Acme or Acme'' =
     [\<lparr>m_index = 0, m_full = ''Acme'', m_group1 = None\<rparr>,
      \<lparr>m_index = 8, m_full = ''Acme'', m_group1 = None\<rparr>]"
  by (simp_all add: literal_runtime_def)

lemma vendor_rules_stage:
  "extractFields literal_runtime (rulesEngine (vendor_extractor p)) ''Bill from Acme'' (Some [''vendor'']) =
     (Inr [(''vendor'', [acme_from_rules (min (0.5 + (10 - real_of_int p) * 0.05) 1)])],
      rulesEngine (vendor_extractor p))"
  by (simp add: acme_from_rules_def vendor_engine builtin_filter_vendor literal_scans vendor_rule_def
      rules_defs string_defs)

lemma vendor_buyer_rules_stage:
  "extractFields literal_runtime (rulesEngine (vendor_extractor p)) ''Bill from Acme''
       (Some [''vendor'', ''buyer'']) =
     (Inr [(''vendor'', [acme_from_rules (min (0.5 + (10 - real_of_int p) * 0.05) 1)])],
      rulesEngine (vendor_extractor p))"
  by (simp add: acme_from_rules_def vendor_engine builtin_filter_vendor literal_scans vendor_rule_def
      rules_defs string_defs)

lemma bolt_rules_stage:
  "extractFields literal_runtime (rulesEngine (vendor_extractor p)) ''Bill from Bolt'' (Some [''vendor'']) =
     (Inr [], rulesEngine (vendor_extractor p))"
  by (simp add: vendor_engine builtin_filter_vendor literal_scans vendor_rule_def rules_defs string_defs)

lemma twice_rules_stage:
  "extractFields literal_runtime (rulesEngine (vendor_extractor 8)) ''Acme or Acme'' (Some [''vendor'']) =
     (Inr [(''vendor'',
           [\<lparr>cand_value = ''Acme'', cand_is_string = True, confidence = 0.6, position = Some 0,
             cand_context = ''Acme or Acme'', cand_source = None\<rparr>])],
      rulesEngine (vendor_extractor 8))"
  by (simp add: vendor_engine builtin_filter_vendor literal_scans vendor_rule_def rules_defs string_defs)

section \<open>The merge\<close>

text \<open>
  Claim C2: whatever the fallback does (it may return candidates, return nothing, fail,
  or not be called at all), a field that holds a rules candidate whose confidence is at
  or above the threshold holds after phase 3, before the post-processing, the very list
  of candidates that the rules stage gave it. Such a field is not a gap, since the rules
  stage ranks the best candidate first, and the merge only writes to gaps.
\<close>

theorem merge_keeps_confident_candidates:
  assumes "fst (extractFields rt (rulesEngine fx) (doc_text doc) (opt_specificFields opts)) = Inr rr"
    and "map_of rr f = Some cs"
    and "c \<in> set cs"
    and "confidenceThreshold opts \<le> confidence c"
  shows "map_of (fst (fallbackPhase fx rt cfg transport now doc opts rr (rulesMetadata fx now rr)
            (identifyMissingFields fx rr (confidenceThreshold opts) (opt_specificFields opts)))) f = Some cs"
proof -
  have "f \<notin> set (identifyMissingFields fx rr (confidenceThreshold opts) (opt_specificFields opts))"
    using assms by (rule confident_not_missing)
  then show ?thesis
    using fallbackPhase_fields [of fx rt cfg transport now doc opts rr "rulesMetadata fx now rr"
        "identifyMissingFields fx rr (confidenceThreshold opts) (opt_specificFields opts)"] assms(2)
    by (auto simp: map_of_mergeResults_other)
qed

text \<open>
  The witness: \<open>vendor\<close> and \<open>buyer\<close> are requested; the rules find the vendor with
  confidence 0.6, the threshold; the buyer is a gap, and the fallback names both.
\<close>

theorem merge_keeps_confident_candidates_witness:
  "fst (extractFields literal_runtime (rulesEngine (vendor_extractor 8)) (doc_text acme_document)
       (opt_specificFields vendor_buyer_options)) = Inr [(''vendor'', [acme_from_rules 0.6])]
   \<and> map_of [(''vendor'', [acme_from_rules 0.6])] ''vendor'' = Some [acme_from_rules 0.6]
   \<and> acme_from_rules 0.6 \<in> set [acme_from_rules 0.6]
   \<and> confidenceThreshold vendor_buyer_options \<le> confidence (acme_from_rules 0.6)
   \<and> map_of (fst (fallbackPhase (vendor_extractor 8) literal_runtime example_config acme_backend 0
          acme_document vendor_buyer_options [(''vendor'', [acme_from_rules 0.6])]
          (rulesMetadata (vendor_extractor 8) 0 [(''vendor'', [acme_from_rules 0.6])])
          (identifyMissingFields (vendor_extractor 8) [(''vendor'', [acme_from_rules 0.6])]
             (confidenceThreshold vendor_buyer_options) (opt_specificFields vendor_buyer_options))))
        ''vendor'' = Some [acme_from_rules 0.6]"
proof -
  have a: "fst (extractFields literal_runtime (rulesEngine (vendor_extractor 8)) (doc_text acme_document)
       (opt_specificFields vendor_buyer_options)) = Inr [(''vendor'', [acme_from_rules 0.6])]"
    using vendor_buyer_rules_stage [of 8]
    by (simp add: acme_document_def vendor_buyer_options_def default_options_def)
  have b: "map_of [(''vendor'', [acme_from_rules 0.6])] ''vendor'' = Some [acme_from_rules 0.6]"
    by simp
  have c: "acme_from_rules 0.6 \<in> set [acme_from_rules 0.6]"
    by simp
  have d: "confidenceThreshold vendor_buyer_options \<le> confidence (acme_from_rules 0.6)"
    by (simp add: vendor_buyer_options_def default_options_def acme_from_rules_def)
  show ?thesis
    using a b c d merge_keeps_confident_candidates [OF a b c d, of example_config acme_backend 0]
    by simp
qed

section \<open>Duplicates\<close>

text \<open>
  Claim C4, as stated, fails after the merge. The vendor rule (priority 8) finds
  \<open>Acme\<close> with confidence 0.6, below the threshold 0.7, so the field is a gap; the
  fallback answers \<open>Acme\<close> too, and the merged and post-processed field holds both
  candidates, whose values are equal: \<open>mergeResults\<close> and \<open>postProcess\<close> do not remove
  duplicates.
\<close>

theorem merge_duplicates_counterexample:
  "map_sum id extractedFields
     (fst (FieldExtractor_extract (vendor_extractor 8) literal_runtime example_config acme_backend 0
             acme_document (vendor_options\<lparr>confidenceThreshold := 0.7\<rparr>))) =
     Inr [(''vendor'', [acme_from_llm, acme_from_rules 0.6])]
   \<and> valueKey acme_from_llm = valueKey (acme_from_rules 0.6)"
  by (simp add: extract_defs ledger_defs vendor_rules_stage vendor_provider vendor_registry
      example_defs acme_from_llm_def valueKey_def byConfidence_def string_defs)

text \<open>
  Claim C4, amended to the rules stage: no field that \<open>RulesEngine.extractFields\<close> returns
  holds two candidates whose values are equal up to case; and \<open>removeDuplicates\<close> returns
  no two such candidates and keeps, for every candidate it is given, a candidate of the
  same value up to case that is at least as confident.
\<close>

theorem rules_stage_has_no_duplicates:
  assumes "fst (extractFields rt eng text sf) = Inr rr"
    and "(f, cs) \<in> set rr"
  shows "distinct (map valueKey cs)
       \<and> distinct (map valueKey (removeDuplicates found))
       \<and> (\<forall>m \<in> set found. \<exists>k \<in> set (removeDuplicates found).
             k \<in> set found \<and> valueKey k = valueKey m \<and> confidence m \<le> confidence k)"
  using extractFields_distinct_keys [OF assms] distinct_keys_removeDuplicates [of found]
    removeDuplicates_keeps_best [of _ found]
  by blast

text \<open>
  The witness: the text names \<open>Acme\<close> twice and the rules stage returns it once; of the
  rules candidate and the more confident fallback candidate, \<open>removeDuplicates\<close> keeps one
  that is at least as confident as the rules candidate.
\<close>

theorem rules_stage_has_no_duplicates_witness:
  "fst (extractFields literal_runtime (rulesEngine (vendor_extractor 8)) (doc_text twice_document)
       (Some [''vendor''])) =
     Inr [(''vendor'',
           [\<lparr>cand_value = ''Acme'', cand_is_string = True, confidence = 0.6, position = Some 0,
             cand_context = ''Acme or Acme'', cand_source = None\<rparr>])]
   \<and> distinct (map valueKey
         [\<lparr>cand_value = ''Acme'', cand_is_string = True, confidence = 0.6, position = Some 0,
           cand_context = ''Acme or Acme'', cand_source = None\<rparr>])
   \<and> (\<exists>k \<in> set (removeDuplicates [acme_from_rules 0.6, acme_from_llm]).
         valueKey k = valueKey (acme_from_rules 0.6)
         \<and> confidence (acme_from_rules 0.6) \<le> confidence k)"
proof -
  have a: "fst (extractFields literal_runtime (rulesEngine (vendor_extractor 8)) (doc_text twice_document)
       (Some [''vendor''])) =
     Inr [(''vendor'',
           [\<lparr>cand_value = ''Acme'', cand_is_string = True, confidence = 0.6, position = Some 0,
             cand_context = ''Acme or Acme'', cand_source = None\<rparr>])]"
    using twice_rules_stage by (simp add: twice_document_def)
  show ?thesis
    using a rules_stage_has_no_duplicates [OF a, of "''vendor''" _ "[acme_from_rules 0.6, acme_from_llm]"]
    by auto
qed

section \<open>The range of the confidence\<close>

lemma calculateConfidence_le_1: "calculateConfidence text m pattern r \<le> 1"
  by (simp add: calculateConfidence_def Let_def)

lemma calculateConfidence_ge_0:
  assumes "priority r \<le> 20"
  shows "0 \<le> calculateConfidence text m pattern r"
proof -
  define p where "p = real_of_int (priority r)"
  define ctx where "ctx = toLowerCase (substring text (m_index m - 20) (m_index m + length (m_full m) + 20))"
  define b :: real where "b = (if length (re_source pattern) > 20 then 0.1 else 0)
      + (if str_includes ctx ''email'' then 0.2 else 0)
      + (if str_includes ctx ''phone'' then 0.2 else 0)
      + (if str_includes ctx ''amount'' then 0.2 else 0)"
  have eq: "calculateConfidence text m pattern r = min (0.5 + b + (10 - p) * 0.05) 1"
    by (simp add: calculateConfidence_def Let_def p_def b_def ctx_def)
  from assms have "p \<le> 20"
    by (simp add: p_def)
  moreover have "0 \<le> b"
    by (simp add: b_def)
  ultimately have "0 \<le> 0.5 + b + (10 - p) * 0.05"
    by (simp add: field_simps)
  then show ?thesis
    by (simp add: eq)
qed

subsection \<open>The post-processing\<close>

lemma postProcessFieldValue_string: "\<exists>v'. postProcessFieldValue rt f (JString v) = Inr v'"
  by (simp add: postProcessFieldValue_def)

lemma postProcessMatches_range:
  "postProcessMatches rt f found = Inr ms \<Longrightarrow> c \<in> set ms \<Longrightarrow>
     0 \<le> confidence c \<and> confidence c \<le> 1"
proof (induction found arbitrary: ms)
  case Nil
  then show ?case by simp
next
  case (Cons m found)
  from Cons.prems(1) obtain v rest where
    rest: "postProcessMatches rt f found = Inr rest"
    and ms: "ms = m\<lparr>confidence := min (max (confidence m) 0) 1, cand_value := v,
                      cand_is_string := True\<rparr> # rest"
    by (auto split: sum.splits)
  from Cons.prems(2) ms show ?case
    using Cons.IH [OF rest] by auto
qed

lemma postProcessMatches_length:
  "postProcessMatches rt f found = Inr ms \<Longrightarrow> length ms = length found"
  by (induction found arbitrary: ms) (auto split: sum.splits)

lemma postProcessMatches_strings:
  "string_valued found \<Longrightarrow> \<exists>ms. postProcessMatches rt f found = Inr ms"
proof (induction found)
  case Nil
  then show ?case by simp
next
  case (Cons m found)
  from Cons.prems have m: "jsValue m = JString (cand_value m)" and rest: "string_valued found"
    by (simp_all add: string_valued_def jsValue_def)
  from Cons.IH [OF rest] obtain ms where "postProcessMatches rt f found = Inr ms" by blast
  moreover obtain v' where "postProcessFieldValue rt f (JString (cand_value m)) = Inr v'"
    using postProcessFieldValue_string by blast
  ultimately show ?case
    by (simp add: m)
qed

lemma postProcessFields_entries:
  "postProcessFields rt flds acc = Inr out \<Longrightarrow> (f, cs) \<in> set out \<Longrightarrow>
     (f, cs) \<in> set acc \<or> (\<exists>found. found \<noteq> [] \<and> postProcessMatches rt f found = Inr cs)"
proof (induction flds arbitrary: acc)
  case Nil
  then show ?case by simp
next
  case (Cons entry flds)
  obtain g found where entry: "entry = (g, found)" by (cases entry)
  show ?case
  proof (cases "found = []")
    case True
    with Cons entry show ?thesis by simp
  next
    case False
    with Cons.prems(1) entry obtain ms where ms: "postProcessMatches rt g found = Inr ms"
      and out: "postProcessFields rt flds (AList.update g ms acc) = Inr out"
      by (auto split: sum.splits)
    from Cons.IH [OF out Cons.prems(2)] show ?thesis
    proof
      assume "(f, cs) \<in> set (AList.update g ms acc)"
      then show ?thesis
        using set_update_subset [of g ms acc] False ms by auto
    qed simp
  qed
qed

lemma postProcessFields_strings:
  "\<forall>(f, cs) \<in> set flds. string_valued cs \<Longrightarrow> \<exists>out. postProcessFields rt flds acc = Inr out"
proof (induction flds arbitrary: acc)
  case Nil
  then show ?case by simp
next
  case (Cons entry flds)
  obtain g found where entry: "entry = (g, found)" by (cases entry)
  from Cons.prems entry have "string_valued found" by simp
  from postProcessMatches_strings [OF this, of rt g] obtain ms
    where ms: "postProcessMatches rt g found = Inr ms" by blast
  from Cons.prems have rest: "\<forall>(f, cs) \<in> set flds. string_valued cs" by simp
  show ?case
    using Cons.IH [OF rest] by (simp add: entry ms)
qed

lemma postProcess_range:
  "postProcess rt flds = Inr out \<Longrightarrow> (f, cs) \<in> set out \<Longrightarrow> c \<in> set cs \<Longrightarrow>
     0 \<le> confidence c \<and> confidence c \<le> 1"
  using postProcessFields_entries [of rt flds "[]" out f cs] postProcessMatches_range [of rt f _ cs c]
  by (auto simp: postProcess_def)

lemma postProcess_nonempty: "postProcess rt flds = Inr out \<Longrightarrow> (f, cs) \<in> set out \<Longrightarrow> cs \<noteq> []"
  using postProcessFields_entries [of rt flds "[]" out f cs] postProcessMatches_length [of rt f _ cs]
  by (auto simp: postProcess_def)

text \<open>The post-processing of what the rules stage returns does not throw.\<close>

lemma postProcess_rules:
  assumes "fst (extractFields rt eng text sf) = Inr rr"
  shows "\<exists>out. postProcess rt rr = Inr out"
  unfolding postProcess_def
  using extractFields_strings [OF assms] by (intro postProcessFields_strings) auto

lemma extract_fields:
  "fst (FieldExtractor_extract fx rt cfg transport now doc opts) = Inr res \<Longrightarrow>
     \<exists>merged. postProcess rt merged = Inr (extractedFields res)"
  by (auto simp: FieldExtractor_extract_def Let_def split: sum.splits prod.splits)

lemma extract_output_range:
  assumes "fst (FieldExtractor_extract fx rt cfg transport now doc opts) = Inr res"
    and "(f, cs) \<in> set (extractedFields res)" and "c \<in> set cs"
  shows "0 \<le> confidence c \<and> confidence c \<le> 1"
  using extract_fields [OF assms(1)] assms(2,3) postProcess_range by metis

text \<open>
  Claim C3 says that every candidate returned by \<open>RulesEngine.extractFields\<close> and every
  candidate in the final output of \<open>FieldExtractor.extract\<close> has a confidence between 0
  and 1, also for custom rules of any integer priority. That holds of the final output
  of \<open>extract\<close> (\<open>extract_output_range\<close>), and the rules stage never exceeds 1
  (\<open>calculateConfidence_le_1\<close>) and never goes below 0 for a priority up to 20
  (\<open>calculateConfidence_ge_0\<close>); but \<open>calculateConfidence\<close> has no lower clamp. With
  the vendor rule registered at priority 21, the candidate that
  \<open>RulesEngine.extractFields\<close> returns has the confidence \<open>0.5 + (10 - 21) * 0.05\<close>, below
  zero.
\<close>

theorem rules_stage_confidence_below_zero:
  "fst (extractFields literal_runtime (rulesEngine (vendor_extractor 21)) ''Bill from Acme''
          (Some [''vendor''])) =
     Inr [(''vendor'', [acme_from_rules (- 0.05)])]"
  using vendor_rules_stage [of 21] by simp

section \<open>Failures of the fallback\<close>

text \<open>
  \<open>extract\<close> throws when the rules stage throws (a pattern without the flag \<open>g\<close>) or
  when the post-processing throws, which it does for a fallback value that is not a
  string: the reply \<open>{"vendor": 42}\<close> makes \<open>extract\<close> throw, after the request has been
  charged to the ledger.
\<close>

lemma extract_fails:
  "(\<exists>e. fst (FieldExtractor_extract fx rt cfg transport now doc opts) = Inl e) =
   ((\<exists>e. fst (extractFields rt (rulesEngine fx) (doc_text doc) (opt_specificFields opts)) = Inl e) \<or>
    (\<exists>rr e. fst (extractFields rt (rulesEngine fx) (doc_text doc) (opt_specificFields opts)) = Inr rr \<and>
       postProcess rt (fst (fallbackPhase fx rt cfg transport now doc opts rr (rulesMetadata fx now rr)
          (identifyMissingFields fx rr (confidenceThreshold opts) (opt_specificFields opts)))) = Inl e))"
  by (auto simp: FieldExtractor_extract_def Let_def split: sum.splits prod.splits)

lemma number_reply_makes_extract_throw:
  "fst (FieldExtractor_extract (vendor_extractor 1) literal_runtime example_config number_backend 0
          bolt_document vendor_options) =
     Inl (Error ''Field extraction failed: value.trim is not a function'')"
  by (simp add: extract_defs ledger_defs bolt_rules_stage vendor_provider vendor_registry example_defs
      bolt_document_def number_backend_def byConfidence_def string_defs)

text \<open>
  Claim C5, as stated, fails for a reply that cannot be parsed: \<open>parseExtractionResponse\<close>
  catches the error and returns no fields, so the provider throws nothing. The call
  returns and keeps the rules-only fields, but no error is recorded: the metadata says
  that the fallback was used.
\<close>

theorem unparsed_reply_counterexample:
  "map_sum id (\<lambda>res. (llmError (res_metadata res), llmFallbackUsed (res_metadata res),
                        extractionMethod (res_metadata res), extractedFields res))
     (fst (FieldExtractor_extract (vendor_extractor 8) literal_runtime example_config garbled_backend 0
             acme_document (vendor_options\<lparr>confidenceThreshold := 0.7\<rparr>))) =
     Inr (None, True, ''rules+llm'', [(''vendor'', [acme_from_rules 0.6])])"
  by (simp add: extract_defs ledger_defs vendor_rules_stage vendor_provider vendor_registry
      example_defs garbled_backend_def byConfidence_def string_defs)

text \<open>
  Claim C5, amended. Let the fallback be enabled and called (some field is a gap).

  \<^item> Whenever the provider throws (a failure of the backend: network, authentication,
    rate limit; a key that is not configured; a provider that is not supported),
    \<open>extract\<close> returns a result; its fields are the post-processed fields of the rules
    stage, as in a run without fallback; the message of the error is in the metadata,
    which still says that the method is \<open>rules\<close> and that the fallback was not used.
  \<^item> Whenever the backend (Ollama, or OpenAI with a key) replies, the provider can read
    the text of the reply, and that text cannot be parsed, nothing is thrown at all: \<open>extract\<close> returns a result with the
    post-processed fields of the rules stage, the metadata records no error and says
    that the method is \<open>rules+llm\<close> and that the fallback was used.
\<close>

theorem fallback_failure_is_absorbed:
  assumes "fst (extractFields rt (rulesEngine fx) (doc_text doc) (opt_specificFields opts)) = Inr rr"
    and "enableLLMFallback opts"
    and "identifyMissingFields fx rr (confidenceThreshold opts) (opt_specificFields opts) = missing"
    and "missing \<noteq> []"
  shows "(\<forall>failure.
            fst (LLM_extractFields (llmProvider fx) rt cfg transport now (doc_text doc) missing
                   (opt_sessionId opts)) = Inl failure \<longrightarrow>
            (\<exists>res processed.
               fst (FieldExtractor_extract fx rt cfg transport now doc opts) = Inr res
               \<and> postProcess rt rr = Inr processed
               \<and> extractedFields res = processed
               \<and> llmError (res_metadata res) = Some (llm_message failure)
               \<and> \<not> llmFallbackUsed (res_metadata res)
               \<and> extractionMethod (res_metadata res) = ''rules''))
       \<and> (\<forall>reply.
            transport (doc_text doc) missing = Inr reply \<and> decoded reply = None
            \<and> (provider (llmProvider fx) = ''ollama''
                \<or> provider (llmProvider fx) = ''openai''
                   \<and> cfg_openaiApiKey cfg \<noteq> None \<and> cfg_openaiApiKey cfg \<noteq> Some []
                   \<and> content_error reply = None) \<longrightarrow>
            (\<exists>res processed.
               fst (FieldExtractor_extract fx rt cfg transport now doc opts) = Inr res
               \<and> postProcess rt rr = Inr processed
               \<and> extractedFields res = processed
               \<and> llmError (res_metadata res) = None
               \<and> llmFallbackUsed (res_metadata res)
               \<and> extractionMethod (res_metadata res) = ''rules+llm''))"
proof -
  obtain processed where p: "postProcess rt rr = Inr processed"
    using postProcess_rules [OF assms(1)] by blast
  obtain eng where ef:
    "extractFields rt (rulesEngine fx) (doc_text doc) (opt_specificFields opts) = (Inr rr, eng)"
    using assms(1)
    by (cases "extractFields rt (rulesEngine fx) (doc_text doc) (opt_specificFields opts)") simp
  have thrown: "\<exists>res processed.
               fst (FieldExtractor_extract fx rt cfg transport now doc opts) = Inr res
               \<and> postProcess rt rr = Inr processed
               \<and> extractedFields res = processed
               \<and> llmError (res_metadata res) = Some (llm_message failure)
               \<and> \<not> llmFallbackUsed (res_metadata res)
               \<and> extractionMethod (res_metadata res) = ''rules''"
    if "fst (LLM_extractFields (llmProvider fx) rt cfg transport now (doc_text doc) missing
               (opt_sessionId opts)) = Inl failure" for failure
  proof -
    from that obtain p' where
      "LLM_extractFields (llmProvider fx) rt cfg transport now (doc_text doc) missing
         (opt_sessionId opts) = (Inl failure, p')"
      by (cases "LLM_extractFields (llmProvider fx) rt cfg transport now (doc_text doc) missing
            (opt_sessionId opts)") simp
    then show ?thesis
      using ef assms(2,3,4) p
      by (simp add: FieldExtractor_extract_def fallbackPhase_def rulesMetadata_def Let_def)
  qed
  have unparsed: "\<exists>res processed.
               fst (FieldExtractor_extract fx rt cfg transport now doc opts) = Inr res
               \<and> postProcess rt rr = Inr processed
               \<and> extractedFields res = processed
               \<and> llmError (res_metadata res) = None
               \<and> llmFallbackUsed (res_metadata res)
               \<and> extractionMethod (res_metadata res) = ''rules+llm''"
    if "transport (doc_text doc) missing = Inr reply \<and> decoded reply = None
        \<and> (provider (llmProvider fx) = ''ollama''
            \<or> provider (llmProvider fx) = ''openai''
               \<and> cfg_openaiApiKey cfg \<noteq> None \<and> cfg_openaiApiKey cfg \<noteq> Some []
                   \<and> content_error reply = None)" for reply
  proof -
    from that have "fst (LLM_extractFields (llmProvider fx) rt cfg transport now (doc_text doc) missing
               (opt_sessionId opts)) = Inr []"
      by (auto simp: LLM_extractFields_def callOllama_def callOpenAI_def canMakeRequest_def
          parseExtractionResponse_def Let_def)
    then obtain p' where
      "LLM_extractFields (llmProvider fx) rt cfg transport now (doc_text doc) missing
         (opt_sessionId opts) = (Inr [], p')"
      by (cases "LLM_extractFields (llmProvider fx) rt cfg transport now (doc_text doc) missing
            (opt_sessionId opts)") simp
    then show ?thesis
      using ef assms(2,3,4) p
      by (simp add: FieldExtractor_extract_def fallbackPhase_def rulesMetadata_def
          mergeResults_nothing Let_def)
  qed
  from thrown unparsed show ?thesis
    by blast
qed

text \<open>
  The witness: the vendor is a gap at the threshold 0.7; in one run the Ollama server is
  down, in the other its reply is not JSON.
\<close>

theorem fallback_failure_is_absorbed_witness:
  "fst (extractFields literal_runtime (rulesEngine (vendor_extractor 8)) (doc_text acme_document)
       (opt_specificFields (vendor_options\<lparr>confidenceThreshold := 0.7\<rparr>))) =
     Inr [(''vendor'', [acme_from_rules 0.6])]
   \<and> enableLLMFallback (vendor_options\<lparr>confidenceThreshold := 0.7\<rparr>)
   \<and> identifyMissingFields (vendor_extractor 8) [(''vendor'', [acme_from_rules 0.6])]
        (confidenceThreshold (vendor_options\<lparr>confidenceThreshold := 0.7\<rparr>))
        (opt_specificFields (vendor_options\<lparr>confidenceThreshold := 0.7\<rparr>)) = [''vendor'']
   \<and> fst (LLM_extractFields (llmProvider (vendor_extractor 8)) literal_runtime example_config
             refusing_backend 0 (doc_text acme_document) [''vendor'']
             (opt_sessionId (vendor_options\<lparr>confidenceThreshold := 0.7\<rparr>))) =
       Inl (BackendFailure ''Ollama server is not running. Please start Ollama and try again.'')
   \<and> garbled_backend (doc_text acme_document) [''vendor''] =
       Inr \<lparr>usage_input = 40, usage_output = 8, content_error = None, decoded = None\<rparr>
   \<and> provider (llmProvider (vendor_extractor 8)) = ''ollama''
   \<and> postProcess literal_runtime [(''vendor'', [acme_from_rules 0.6])] =
       Inr [(''vendor'', [acme_from_rules 0.6])]
   \<and> (\<exists>res. fst (FieldExtractor_extract (vendor_extractor 8) literal_runtime example_config
                    refusing_backend 0 acme_document (vendor_options\<lparr>confidenceThreshold := 0.7\<rparr>)) = Inr res
          \<and> extractedFields res = [(''vendor'', [acme_from_rules 0.6])]
          \<and> llmError (res_metadata res) =
              Some ''Ollama server is not running. Please start Ollama and try again.''
          \<and> \<not> llmFallbackUsed (res_metadata res)
          \<and> extractionMethod (res_metadata res) = ''rules'')
   \<and> (\<exists>res. fst (FieldExtractor_extract (vendor_extractor 8) literal_runtime example_config
                    garbled_backend 0 acme_document (vendor_options\<lparr>confidenceThreshold := 0.7\<rparr>)) = Inr res
          \<and> extractedFields res = [(''vendor'', [acme_from_rules 0.6])]
          \<and> llmError (res_metadata res) = None
          \<and> llmFallbackUsed (res_metadata res)
          \<and> extractionMethod (res_metadata res) = ''rules+llm'')"
proof -
  have a: "fst (extractFields literal_runtime (rulesEngine (vendor_extractor 8)) (doc_text acme_document)
       (opt_specificFields (vendor_options\<lparr>confidenceThreshold := 0.7\<rparr>))) =
     Inr [(''vendor'', [acme_from_rules 0.6])]"
    using vendor_rules_stage [of 8] by (simp add: acme_document_def vendor_options_def default_options_def)
  have b: "enableLLMFallback (vendor_options\<lparr>confidenceThreshold := 0.7\<rparr>)"
    by (simp add: vendor_options_def default_options_def)
  have c: "identifyMissingFields (vendor_extractor 8) [(''vendor'', [acme_from_rules 0.6])]
        (confidenceThreshold (vendor_options\<lparr>confidenceThreshold := 0.7\<rparr>))
        (opt_specificFields (vendor_options\<lparr>confidenceThreshold := 0.7\<rparr>)) = [''vendor'']"
    by (simp add: identifyMissingFields_def vendor_options_def default_options_def acme_from_rules_def)
  have d: "[''vendor''] \<noteq> []"
    by simp
  have e: "fst (LLM_extractFields (llmProvider (vendor_extractor 8)) literal_runtime example_config
             refusing_backend 0 (doc_text acme_document) [''vendor'']
             (opt_sessionId (vendor_options\<lparr>confidenceThreshold := 0.7\<rparr>))) =
       Inl (BackendFailure ''Ollama server is not running. Please start Ollama and try again.'')"
    by (simp add: LLM_extractFields_def callOllama_def canMakeRequest_def vendor_provider
        refusing_backend_def Let_def)
  have g: "garbled_backend (doc_text acme_document) [''vendor''] =
       Inr \<lparr>usage_input = 40, usage_output = 8, content_error = None, decoded = None\<rparr>"
    by (simp add: garbled_backend_def)
  have h: "provider (llmProvider (vendor_extractor 8)) = ''ollama''"
    by (simp add: vendor_provider)
  have p: "postProcess literal_runtime [(''vendor'', [acme_from_rules 0.6])] =
       Inr [(''vendor'', [acme_from_rules 0.6])]"
    by (simp add: postProcess_def postProcessFieldValue_def jsValue_def acme_from_rules_def string_defs)
  have g2: "garbled_backend (doc_text acme_document) [''vendor''] =
         Inr \<lparr>usage_input = 40, usage_output = 8, content_error = None, decoded = None\<rparr>
      \<and> decoded \<lparr>usage_input = 40, usage_output = 8, content_error = None, decoded = None\<rparr> = None
      \<and> (provider (llmProvider (vendor_extractor 8)) = ''ollama''
          \<or> provider (llmProvider (vendor_extractor 8)) = ''openai''
             \<and> cfg_openaiApiKey example_config \<noteq> None \<and> cfg_openaiApiKey example_config \<noteq> Some []
             \<and> content_error \<lparr>usage_input = 40, usage_output = 8, content_error = None, decoded = None\<rparr> = None)"
    using g h by simp
  have thrown: "\<exists>res processed.
      fst (FieldExtractor_extract (vendor_extractor 8) literal_runtime example_config
             refusing_backend 0 acme_document (vendor_options\<lparr>confidenceThreshold := 0.7\<rparr>)) = Inr res
      \<and> postProcess literal_runtime [(''vendor'', [acme_from_rules 0.6])] = Inr processed
      \<and> extractedFields res = processed
      \<and> llmError (res_metadata res) =
          Some (llm_message (BackendFailure ''Ollama server is not running. Please start Ollama and try again.''))
      \<and> \<not> llmFallbackUsed (res_metadata res)
      \<and> extractionMethod (res_metadata res) = ''rules''"
    using fallback_failure_is_absorbed [OF a b c d, of example_config refusing_backend 0] e
    by blast
  have unparsed: "\<exists>res processed.
      fst (FieldExtractor_extract (vendor_extractor 8) literal_runtime example_config
             garbled_backend 0 acme_document (vendor_options\<lparr>confidenceThreshold := 0.7\<rparr>)) = Inr res
      \<and> postProcess literal_runtime [(''vendor'', [acme_from_rules 0.6])] = Inr processed
      \<and> extractedFields res = processed
      \<and> llmError (res_metadata res) = None
      \<and> llmFallbackUsed (res_metadata res)
      \<and> extractionMethod (res_metadata res) = ''rules+llm''"
    using fallback_failure_is_absorbed [OF a b c d, of example_config garbled_backend 0] g2
    by blast
  from thrown unparsed a b c e g h p show ?thesis
    by auto
qed

section \<open>Gaps\<close>

lemma requested_field_without_candidates_is_a_gap:
  "f \<in> set sf \<Longrightarrow> map_of rr f = None \<Longrightarrow> f \<in> set (identifyMissingFields fx rr th (Some sf))"
  by (simp add: identifyMissingFields_def)

lemma builtin_field_without_candidates_is_a_gap:
  "f \<in> fst ` set (rules (rulesEngine fx)) \<Longrightarrow> map_of rr f = None \<Longrightarrow>
     f \<in> set (identifyMissingFields fx rr th None)"
  by (auto simp: identifyMissingFields_def)

text \<open>
  Claim C6 says that a requested field for which the rules stage produced no candidate
  is, with the fallback enabled, in the gap set passed to the backend, whether it is
  requested through an explicit subset or through the rule registry, custom rules
  included. That holds of a field that is named in an explicit subset and of a built-in
  field (the two lemmas above). It fails for a field of a custom rule when no subset is
  given: \<open>identifyMissingFields\<close> then walks the keys of the built-in table only, while
  \<open>RulesEngine.extractFields\<close> has applied the custom rules too. Whatever the rules stage
  returned, and so also when it found no candidate for it, the field \<open>vendor\<close> of a
  custom rule is not among the gaps.
\<close>

theorem custom_field_is_never_a_gap:
  "''vendor'' \<notin> set (identifyMissingFields
      (fx\<lparr>rulesEngine := addCustomRule (RulesEngine_new rt h) ''vendor'' r\<rparr>) rr th None)"
  by (simp add: identifyMissingFields_def addCustomRule_def RulesEngine_new_def EXTRACTION_RULES_def)

section \<open>The summary\<close>

lemma extractionRate_of_the_registry:
  assumes "fst (FieldExtractor_extract fx rt cfg transport now doc opts) = Inr res"
    and "res_summary res = Some s"
  shows "extractionRate s =
           js_div (real (fieldsExtracted s))
                  (real (length (rules (rulesEngine fx)) + length (customRules (rulesEngine fx))))"
  using assms
  by (auto simp: FieldExtractor_extract_def fallbackPhase_def rulesMetadata_def getExtractionStats_def
      generateExtractionSummary_def Let_def split: sum.splits prod.splits if_splits)

text \<open>
  Claim C7 says that the \<open>extractionRate\<close> of the summary is the number of fields with
  at least one candidate divided by the number of requested fields: the size of the
  explicit subset when one is given, and else the size of the registry. It fails when a
  subset of the fields is requested: the denominator of the rate is always the size of
  the whole registry, the built-in rules and the custom rules
  (\<open>extractionRate_of_the_registry\<close>), which the summary calls \<open>totalFieldsRequested\<close>.
  One field, \<open>vendor\<close>, is requested and it is found; the rate is 1/9 and not 1.
\<close>

theorem extraction_rate_of_a_subset:
  "map_sum id (\<lambda>res. map_option (\<lambda>s. (fieldsFound s, fieldsExtracted s, totalFieldsRequested s,
                                            extractionRate s)) (res_summary res))
     (fst (FieldExtractor_extract (vendor_extractor 1) literal_runtime example_config refusing_backend 0
             acme_document vendor_options)) =
     Inr (Some ([''vendor''], 1, 9, Some (1 / 9)))"
  by (simp add: extract_defs ledger_defs vendor_rules_stage vendor_provider vendor_registry
      example_defs byConfidence_def string_defs)

lemma fieldRecommendation_high:
  "fieldRecommendation f cs = Some r \<Longrightarrow> severity r = high \<Longrightarrow> cs = []"
  by (auto simp: fieldRecommendation_def split: list.splits if_splits)

lemma never_a_high_recommendation:
  assumes "fst (FieldExtractor_extract fx rt cfg transport now doc opts) = Inr res"
    and "res_summary res = Some s"
    and "r \<in> set (recommendedReview s)"
  shows "severity r \<noteq> high"
proof
  assume high: "severity r = high"
  from assms(1) obtain merged where merged: "postProcess rt merged = Inr (extractedFields res)"
    by (auto dest: extract_fields)
  from assms(1,2) have "recommendedReview s = getReviewRecommendations (extractedFields res)"
    by (auto simp: FieldExtractor_extract_def generateExtractionSummary_def Let_def
        split: sum.splits prod.splits)
  with assms(3) obtain f cs where entry: "(f, cs) \<in> set (extractedFields res)"
      and r: "fieldRecommendation f cs = Some r"
    by (auto simp: getReviewRecommendations_def List.map_filter_def)
  from fieldRecommendation_high [OF r high] postProcess_nonempty [OF merged entry]
  show False by simp
qed

text \<open>
  Claim C8 says that for every requested field that ends up with no candidates the
  \<open>recommendedReview\<close> of the summary has an entry of severity \<open>high\<close> with the message
  that a manual entry is required. It fails: a field without candidates is not a key of
  the extracted fields (\<open>rankAndCleanResults\<close> and \<open>postProcess\<close> leave it out, and the
  merge adds a field only with candidates), and the recommendations are generated from those keys; so no
  recommendation of severity \<open>high\<close> is ever made (\<open>never_a_high_recommendation\<close>).
  The field \<open>vendor\<close> is requested, the text does not name it, the fallback is enabled
  and fails: the field ends up with no candidates, and the review is empty.
\<close>

theorem no_recommendation_for_a_missing_field:
  "map_sum id (\<lambda>res. (extractedFields res, map_option recommendedReview (res_summary res)))
     (fst (FieldExtractor_extract (vendor_extractor 1) literal_runtime example_config refusing_backend 0
             bolt_document vendor_options)) =
     Inr ([], Some [])"
  by (simp add: extract_defs ledger_defs bolt_rules_stage vendor_provider vendor_registry
      example_defs bolt_document_def byConfidence_def string_defs)

section \<open>Determinism of the rules-only run\<close>

lemma rulesEngine_extract:
  "rulesEngine (snd (FieldExtractor_extract fx rt cfg transport now doc opts)) =
     snd (extractFields rt (rulesEngine fx) (doc_text doc) (opt_specificFields opts))"
  by (auto simp: FieldExtractor_extract_def Let_def split: sum.splits prod.splits)

lemma rules_only_fields:
  "\<not> enableLLMFallback opts \<Longrightarrow>
   map_sum id extractedFields (fst (FieldExtractor_extract fx rt cfg transport now doc opts)) =
     (case fst (extractFields rt (rulesEngine fx) (doc_text doc) (opt_specificFields opts)) of
        Inl e \<Rightarrow> Inl (Error (''Field extraction failed: '' @ message e))
      | Inr rr \<Rightarrow>
          (case postProcess rt rr of
             Inl e \<Rightarrow> Inl (Error (''Field extraction failed: '' @ message e))
           | Inr processed \<Rightarrow> Inr processed))"
  by (simp add: FieldExtractor_extract_def fallbackPhase_def Let_def split: sum.splits prod.splits)

lemma tested_engine:
  "rulesEngine tested_extractor =
     \<lparr>rules = EXTRACTION_RULES literal_runtime, customRules = [(''vendor'', tested_rule)],
      closures = 0\<rparr>"
  by (simp add: tested_extractor_def FieldExtractor_new_def RulesEngine_new_def addCustomRule_def)

text \<open>
  Claim C9, as stated, fails for a rule whose validator keeps state. The custom rule of
  \<open>tested_extractor\<close> validates with \<open>re.test\<close> on the global pattern \<open>re\<close>. In the first
  run \<open>re.lastIndex\<close> is 0, the value \<open>Acme\<close> passes and \<open>lastIndex\<close> is left at 4; in
  the second run, on the same text and with the same options, \<open>test\<close> searches from 4,
  fails, and the run returns no field.
\<close>

theorem stateful_validator_counterexample:
  "map_sum id extractedFields
     (fst (FieldExtractor_extract tested_extractor literal_runtime example_config refusing_backend 0
             acme_document rules_only_options)) =
     Inr [(''vendor'', [acme_from_rules 0.6])]
   \<and> map_sum id extractedFields
     (fst (FieldExtractor_extract
             (snd (FieldExtractor_extract tested_extractor literal_runtime example_config
                     refusing_backend 0 acme_document rules_only_options))
             literal_runtime example_config refusing_backend 0 acme_document rules_only_options)) =
     Inr []"
proof -
  have first: "extractFields literal_runtime (rulesEngine tested_extractor) ''Bill from Acme''
      (Some [''vendor'']) =
     (Inr [(''vendor'', [acme_from_rules 0.6])], (rulesEngine tested_extractor)\<lparr>closures := 4\<rparr>)"
    by (simp add: acme_from_rules_def tested_engine builtin_filter_vendor literal_scans
        tested_rule_def acme_test_def rules_defs string_defs)
  have second: "fst (extractFields literal_runtime ((rulesEngine tested_extractor)\<lparr>closures := 4\<rparr>)
      ''Bill from Acme'' (Some [''vendor''])) = Inr []"
    by (simp add: tested_engine builtin_filter_vendor literal_scans
        tested_rule_def acme_test_def rules_defs string_defs)
  have p: "postProcess literal_runtime [(''vendor'', [acme_from_rules 0.6])] =
       Inr [(''vendor'', [acme_from_rules 0.6])]"
    by (simp add: postProcess_def postProcessFieldValue_def jsValue_def acme_from_rules_def string_defs)
  have o: "\<not> enableLLMFallback rules_only_options"
      "opt_specificFields rules_only_options = Some [''vendor'']"
      "doc_text acme_document = ''Bill from Acme''"
    by (simp_all add: rules_only_options_def default_options_def acme_document_def)
  have p0: "postProcess literal_runtime [] = Inr []"
    by (simp add: postProcess_def)
  from p show ?thesis
    by (simp add: rules_only_fields rulesEngine_extract o first second p0)
qed

text \<open>
  Claim C9, amended: if no validator of the engine, built-in or custom, changes the
  state that the verdicts of the validators depend on, then a second run on the same
  text, with the same requested fields, made after a first run on the extractor as that
  run left it, and with the fallback disabled in both, returns the same extracted
  fields as the first run (or fails with the same error), whatever the session id, the
  threshold, the clock, the file name, the configuration and the backend are in each.
  The same holds of two calls of \<open>RulesEngine.extractFields\<close>.
\<close>

theorem rules_only_run_is_determined:
  assumes "validators_keep_state (rulesEngine fx)"
    and "doc_text doc2 = doc_text doc1"
    and "opt_specificFields opts2 = opt_specificFields opts1"
    and "\<not> enableLLMFallback opts1"
    and "\<not> enableLLMFallback opts2"
  shows "fst (extractFields rt (snd (extractFields rt (rulesEngine fx) (doc_text doc1)
                  (opt_specificFields opts1))) (doc_text doc2) (opt_specificFields opts2)) =
         fst (extractFields rt (rulesEngine fx) (doc_text doc1) (opt_specificFields opts1))
       \<and> map_sum id extractedFields
           (fst (FieldExtractor_extract
                   (snd (FieldExtractor_extract fx rt cfg1 transport1 now1 doc1 opts1))
                   rt cfg2 transport2 now2 doc2 opts2)) =
         map_sum id extractedFields (fst (FieldExtractor_extract fx rt cfg1 transport1 now1 doc1 opts1))"
proof -
  have "snd (extractFields rt (rulesEngine fx) (doc_text doc1) (opt_specificFields opts1)) =
      rulesEngine fx"
    using assms(1) by (rule extractFields_keeps)
  then show ?thesis
    using assms(2,3,4,5) by (simp add: rules_only_fields rulesEngine_extract)
qed

text \<open>
  The witness: the validator of the vendor rule and those of the built-in rules keep no
  state; the second run is made on the extractor that the first run returns, for
  another session, at another time, with another threshold, file name and backend.
\<close>

theorem rules_only_run_is_determined_witness:
  "validators_keep_state (rulesEngine (vendor_extractor 8))
   \<and> doc_text (acme_document\<lparr>doc_filename := ''copy.pdf''\<rparr>) = doc_text acme_document
   \<and> opt_specificFields (vendor_options\<lparr>enableLLMFallback := False, opt_sessionId := ''second'',
                                       confidenceThreshold := 0.9\<rparr>) =
       opt_specificFields (vendor_options\<lparr>enableLLMFallback := False\<rparr>)
   \<and> \<not> enableLLMFallback (vendor_options\<lparr>enableLLMFallback := False\<rparr>)
   \<and> \<not> enableLLMFallback (vendor_options\<lparr>enableLLMFallback := False, opt_sessionId := ''second'',
                                            confidenceThreshold := 0.9\<rparr>)
   \<and> map_sum id extractedFields
        (fst (FieldExtractor_extract
                (snd (FieldExtractor_extract (vendor_extractor 8) literal_runtime example_config
                        acme_backend 0 acme_document (vendor_options\<lparr>enableLLMFallback := False\<rparr>)))
                literal_runtime example_config refusing_backend 86400000
                (acme_document\<lparr>doc_filename := ''copy.pdf''\<rparr>)
                (vendor_options\<lparr>enableLLMFallback := False, opt_sessionId := ''second'',
                                 confidenceThreshold := 0.9\<rparr>))) =
       map_sum id extractedFields
        (fst (FieldExtractor_extract (vendor_extractor 8) literal_runtime example_config acme_backend 0
                acme_document (vendor_options\<lparr>enableLLMFallback := False\<rparr>)))
   \<and> map_sum id extractedFields
        (fst (FieldExtractor_extract (vendor_extractor 8) literal_runtime example_config acme_backend 0
                acme_document (vendor_options\<lparr>enableLLMFallback := False\<rparr>))) =
       Inr [(''vendor'', [acme_from_rules 0.6])]"
proof -
  have v: "validators_keep_state (rulesEngine (vendor_extractor 8))"
    by (auto simp: validators_keep_state_def vendor_engine builtin_keep_state vendor_rule_def
        rule_keeps_state_def keeps_state_def stateless_def)
  have a: "doc_text (acme_document\<lparr>doc_filename := ''copy.pdf''\<rparr>) = doc_text acme_document"
    by simp
  have c: "opt_specificFields (vendor_options\<lparr>enableLLMFallback := False, opt_sessionId := ''second'',
                                           confidenceThreshold := 0.9\<rparr>) =
       opt_specificFields (vendor_options\<lparr>enableLLMFallback := False\<rparr>)"
    by simp
  have d: "\<not> enableLLMFallback (vendor_options\<lparr>enableLLMFallback := False\<rparr>)"
    by simp
  have e: "\<not> enableLLMFallback (vendor_options\<lparr>enableLLMFallback := False, opt_sessionId := ''second'',
                                            confidenceThreshold := 0.9\<rparr>)"
    by simp
  have f: "map_sum id extractedFields
        (fst (FieldExtractor_extract (vendor_extractor 8) literal_runtime example_config acme_backend 0
                acme_document (vendor_options\<lparr>enableLLMFallback := False\<rparr>))) =
       Inr [(''vendor'', [acme_from_rules 0.6])]"
    by (simp add: extract_defs vendor_rules_stage vendor_provider vendor_registry example_defs
        byConfidence_def string_defs)
  from rules_only_run_is_determined [OF v a c d e, of literal_runtime example_config acme_backend 0
      example_config refusing_backend 86400000] v a c d e f
  show ?thesis
    by blast
qed

end
